theory Spec2Isabelle
  imports Main "HOL-Library.Multiset"
begin

section \<open>JavaScript values\<close>

text \<open>
  The records handled by the dashboard are JSON objects whose fields may be absent.
  A field value is one of the JSON scalars, or \<open>JUndefined\<close> for a property that is
  absent (reading an absent property in JavaScript yields \<open>undefined\<close>).
  Numbers are restricted to integers: the code under study never does arithmetic on a
  record field other than turning \<open>created_at\<close> into a date.  There is no NaN value, so
  strict equality \<open>===\<close> on these values is equality of the datatype.
\<close>

datatype jsval = JUndefined | JNull | JBool bool | JNum int | JStr string

datatype js_error = TypeError

text \<open>\<open>Boolean(v)\<close>, also the test of \<open>!v\<close>, \<open>v || w\<close> and \<open>c ? a : b\<close>.\<close>

fun truthy :: "jsval \<Rightarrow> bool" where
  "truthy JUndefined = False"
| "truthy JNull = False"
| "truthy (JBool b) = b"
| "truthy (JNum n) = (n \<noteq> 0)"
| "truthy (JStr s) = (s \<noteq> [])"

text \<open>\<open>a || b\<close> returns the left operand itself when it is truthy.\<close>

definition js_or :: "jsval \<Rightarrow> jsval \<Rightarrow> jsval" where
  "js_or a b = (if truthy a then a else b)"

text \<open>\<open>n || m\<close> on two numbers: zero is falsy.\<close>

definition num_or :: "int \<Rightarrow> int \<Rightarrow> int" where
  "num_or n m = (if n \<noteq> 0 then n else m)"

fun digits :: "nat \<Rightarrow> string" where
  "digits n = (if n < 10 then [''0123456789'' ! n]
               else digits (n div 10) @ [''0123456789'' ! (n mod 10)])"

declare digits.simps [simp del]

text \<open>
  The string conversion of a template literal \<open>`${v}`\<close>.  A number is printed in
  positional digits, as JavaScript prints an integer below \<open>10^21\<close> in absolute value
  (from there on it uses the exponent notation, which is not modelled).
\<close>

fun toString :: "jsval \<Rightarrow> string" where
  "toString JUndefined = ''undefined''"
| "toString JNull = ''null''"
| "toString (JBool b) = (if b then ''true'' else ''false'')"
| "toString (JNum n) = (if n < 0 then CHR ''-'' # digits (nat (- n)) else digits (nat n))"
| "toString (JStr s) = s"

text \<open>\<open>String.prototype.toLowerCase\<close> on the ASCII letters.\<close>

definition lowerChar :: "char \<Rightarrow> char" where
  "lowerChar c =
     (case map_of (zip ''ABCDEFGHIJKLMNOPQRSTUVWXYZ'' ''abcdefghijklmnopqrstuvwxyz'') c of
        None \<Rightarrow> c
      | Some l \<Rightarrow> l)"

definition toLowerCase :: "string \<Rightarrow> string" where
  "toLowerCase s = map lowerChar s"

text \<open>
  \<open>v?.toLowerCase()\<close>: the optional chain yields \<open>undefined\<close> when \<open>v\<close> is \<open>null\<close> or
  \<open>undefined\<close>; on a number or a boolean the property \<open>toLowerCase\<close> is \<open>undefined\<close> and
  calling it throws a \<open>TypeError\<close>.
\<close>

fun optToLowerCase :: "jsval \<Rightarrow> js_error + jsval" where
  "optToLowerCase JUndefined = Inr JUndefined"
| "optToLowerCase JNull = Inr JUndefined"
| "optToLowerCase (JStr s) = Inr (JStr (toLowerCase s))"
| "optToLowerCase (JBool b) = Inl TypeError"
| "optToLowerCase (JNum n) = Inl TypeError"

section \<open>Records of the three sources and the unified alert\<close>

text \<open>
  A record of \<open>/api/sos/user\<close>; the field \<open>sos_x\<close> is the property \<open>x\<close> of the object.
\<close>

record raw_sos =
  sos_id :: jsval
  sos_user_id :: jsval
  sos_ability :: jsval
  sos_lat :: jsval
  sos_lng :: jsval
  sos_battery :: jsval
  sos_status :: jsval
  sos_created_at :: jsval

text \<open>
  A record of \<open>/api/incidents/user\<close>; the field \<open>inc_x\<close> is the property \<open>x\<close>.
\<close>

record raw_incident =
  inc_id :: jsval
  inc_user_id :: jsval
  inc_type :: jsval
  inc_description :: jsval
  inc_lat :: jsval
  inc_lng :: jsval
  inc_status :: jsval
  inc_image_url :: jsval
  inc_risk_score :: jsval
  inc_risk_level :: jsval
  inc_created_at :: jsval

text \<open>
  The unified item built by \<open>getAllAlertsForAdmin\<close>.  A record of
  \<open>/api/messages/admin/all\<close> has the same type: its adapter spreads the message
  (\<open>...msg\<close>), so every property of the message is a property of the item.
  \<open>id'\<close> is the property \<open>id\<close> and \<open>backendId\<close> the property \<open>_backendId\<close>.
\<close>

record alert =
  id' :: jsval
  message_type :: jsval
  sourceType :: jsval
  user_name :: jsval
  user_id :: jsval
  title :: jsval
  content :: jsval
  ability :: jsval
  battery :: jsval
  lat :: jsval
  lng :: jsval
  severity :: jsval
  is_read :: jsval
  created_at :: jsval
  status :: jsval
  backendId :: jsval
  category :: jsval
  description :: jsval
  risk_score :: jsval
  risk_level :: jsval
  image_url :: jsval

section \<open>Source adapters\<close>

text \<open>\<open>formattedMessages\<close>: \<open>{...msg, id: msg.id, sourceType: 'MESSAGE', is_read: Boolean(msg.is_read)}\<close>.\<close>

definition formatMessage :: "alert \<Rightarrow> alert" where
  "formatMessage msg =
     msg\<lparr>id' := id' msg, sourceType := JStr ''MESSAGE'', is_read := JBool (truthy (is_read msg))\<rparr>"

text \<open>\<open>formattedSOS\<close>; the properties the object literal does not mention are absent.\<close>

definition formatSOS :: "raw_sos \<Rightarrow> alert" where
  "formatSOS sos =
     \<lparr>id' = sos_id sos,
      message_type = JStr ''SOS'',
      sourceType = JStr ''SOS'',
      user_name = JStr ''Unknown User'',
      user_id = sos_user_id sos,
      title = JStr (''SOS Alert ('' @ toString (js_or (sos_ability sos) (JStr ''Unknown'')) @ '')''),
      content = JStr (''Emergency SOS - Status: '' @ toString (sos_status sos)),
      ability = js_or (sos_ability sos) (JStr ''NONE''),
      battery = sos_battery sos,
      lat = sos_lat sos,
      lng = sos_lng sos,
      severity = JStr ''critical'',
      is_read = JBool (sos_status sos = JStr ''SAFE''),
      created_at = sos_created_at sos,
      status = sos_status sos,
      backendId = sos_id sos,
      category = JUndefined,
      description = JUndefined,
      risk_score = JUndefined,
      risk_level = JUndefined,
      image_url = JUndefined\<rparr>"

text \<open>
  \<open>formattedIncidents\<close>; the only expression that can throw is
  \<open>inc.risk_level?.toLowerCase()\<close>.
\<close>

definition formatIncident :: "raw_incident \<Rightarrow> js_error + alert" where
  "formatIncident inc =
     (case optToLowerCase (inc_risk_level inc) of
        Inl e \<Rightarrow> Inl e
      | Inr lowered \<Rightarrow> Inr
         \<lparr>id' = inc_id inc,
          message_type = JStr ''INCIDENT'',
          sourceType = JStr ''INCIDENT'',
          user_name = JStr ''Unknown User'',
          user_id = inc_user_id inc,
          title = JStr (''Incident: '' @ toString (inc_type inc)),
          content = inc_description inc,
          ability = JUndefined,
          battery = JUndefined,
          lat = inc_lat inc,
          lng = inc_lng inc,
          severity = js_or lowered (JStr ''medium''),
          is_read = JBool (inc_status inc = JStr ''RESOLVED'' \<or> inc_status inc = JStr ''VERIFIED''),
          created_at = inc_created_at inc,
          status = inc_status inc,
          backendId = inc_id inc,
          category = inc_type inc,
          description = inc_description inc,
          risk_score = inc_risk_score inc,
          risk_level = inc_risk_level inc,
          image_url = inc_image_url inc\<rparr>)"

section \<open>The aggregator\<close>

text \<open>
  One entry of the array returned by \<open>Promise.allSettled\<close>, reduced to what the code
  reads: the request was rejected, or it was fulfilled and the collection property of
  its body (\<open>value.data?.messages\<close>, \<open>.sos_alerts\<close>, \<open>.incidents\<close>) is an array
  (\<open>Some\<close>) or is absent (\<open>None\<close>).
\<close>

datatype 'a settled = Rejected | Fulfilled "'a list option"

text \<open>\<open>res.status === 'fulfilled' && res.value.data?.field ? res.value.data.field : []\<close>.\<close>

fun extractData :: "'a settled \<Rightarrow> 'a list" where
  "extractData Rejected = []"
| "extractData (Fulfilled None) = []"
| "extractData (Fulfilled (Some xs)) = xs"

text \<open>\<open>xs.map(f)\<close> for an \<open>f\<close> that may throw: the first exception ends the traversal.\<close>

fun mapE :: "('a \<Rightarrow> 'e + 'b) \<Rightarrow> 'a list \<Rightarrow> 'e + 'b list" where
  "mapE f [] = Inr []"
| "mapE f (x # xs) =
     (case f x of
        Inl e \<Rightarrow> Inl e
      | Inr y \<Rightarrow> (case mapE f xs of Inl e \<Rightarrow> Inl e | Inr ys \<Rightarrow> Inr (y # ys)))"

text \<open>
  The time value of \<open>new Date(v)\<close> in milliseconds; \<open>None\<close> is NaN, the time value of an
  Invalid Date.  \<open>Date.parse\<close> on strings is a parameter of the model.
\<close>

definition timeClip :: "int \<Rightarrow> int option" where
  "timeClip n = (if \<bar>n\<bar> \<le> 8640000000000000 then Some n else None)"

fun dateValue :: "(string \<Rightarrow> int option) \<Rightarrow> jsval \<Rightarrow> int option" where
  "dateValue parse JUndefined = None"
| "dateValue parse JNull = timeClip 0"
| "dateValue parse (JBool b) = timeClip (if b then 1 else 0)"
| "dateValue parse (JNum n) = timeClip n"
| "dateValue parse (JStr s) = parse s"

definition createdTime :: "(string \<Rightarrow> int option) \<Rightarrow> alert \<Rightarrow> int option" where
  "createdTime parse a = dateValue parse (created_at a)"

text \<open>
  The comparator \<open>(a, b) => new Date(b.created_at) - new Date(a.created_at)\<close>; the
  difference is NaN (\<open>None\<close>) when either date is invalid.
\<close>

definition compareCreated :: "(string \<Rightarrow> int option) \<Rightarrow> alert \<Rightarrow> alert \<Rightarrow> int option" where
  "compareCreated parse a b =
     (case createdTime parse b of
        None \<Rightarrow> None
      | Some tb \<Rightarrow> (case createdTime parse a of None \<Rightarrow> None | Some ta \<Rightarrow> Some (tb - ta)))"

text \<open>
  \<open>Array.prototype.sort(comparefn)\<close>.  The language standard makes the sort stable and
  reads a NaN result of the comparator as \<open>+0\<close>; for a comparator that is a consistent
  ordering the result is the stable sort, which is what this insertion sort computes.
  With an inconsistent comparator (an Invalid Date among the items) the standard leaves
  the order to the implementation: only the fact that the result is a permutation is
  used for such inputs.
\<close>

definition sortCompare :: "('a \<Rightarrow> 'a \<Rightarrow> int option) \<Rightarrow> 'a \<Rightarrow> 'a \<Rightarrow> int" where
  "sortCompare cmp x y = (case cmp x y of None \<Rightarrow> 0 | Some v \<Rightarrow> v)"

fun sortInsert :: "('a \<Rightarrow> 'a \<Rightarrow> int option) \<Rightarrow> 'a \<Rightarrow> 'a list \<Rightarrow> 'a list" where
  "sortInsert cmp x [] = [x]"
| "sortInsert cmp x (y # ys) =
     (if sortCompare cmp x y \<le> 0 then x # y # ys else y # sortInsert cmp x ys)"

fun arraySort :: "('a \<Rightarrow> 'a \<Rightarrow> int option) \<Rightarrow> 'a list \<Rightarrow> 'a list" where
  "arraySort cmp [] = []"
| "arraySort cmp (x # xs) = sortInsert cmp x (arraySort cmp xs)"

record type_counts =
  SOS :: int
  INCIDENT :: int
  GENERAL :: int

text \<open>
  The statistics object.  \<open>admin_stats\<close> holds the four counters that the Admin Actions
  page keeps; the object built by the aggregator has \<open>by_type\<close> in addition.
\<close>

record admin_stats =
  total' :: int
  unread :: int
  sos_count :: int
  incident_count :: int

record api_stats = admin_stats +
  by_type :: type_counts

record snapshot =
  messages :: "alert list"
  stats :: api_stats

text \<open>\<open>allItems.filter(m => m.message_type === t).length\<close>.\<close>

definition countType :: "string \<Rightarrow> alert list \<Rightarrow> int" where
  "countType t allItems = int (length (filter (\<lambda>m. message_type m = JStr t) allItems))"

text \<open>\<open>allItems.filter(m => !m.is_read).length\<close>.\<close>

definition countUnread :: "alert list \<Rightarrow> int" where
  "countUnread allItems = int (length (filter (\<lambda>m. \<not> truthy (is_read m)) allItems))"

definition computeStats :: "alert list \<Rightarrow> api_stats" where
  "computeStats allItems =
     \<lparr>total' = int (length allItems),
      unread = countUnread allItems,
      sos_count = countType ''SOS'' allItems,
      incident_count = countType ''INCIDENT'' allItems,
      by_type = \<lparr>SOS = countType ''SOS'' allItems,
                 INCIDENT = countType ''INCIDENT'' allItems,
                 GENERAL = countType ''GENERAL'' allItems\<rparr>\<rparr>"

text \<open>The value returned by the \<open>catch\<close> branch.\<close>

definition emptySnapshot :: snapshot where
  "emptySnapshot =
     \<lparr>messages = [],
      stats = \<lparr>total' = 0, unread = 0, sos_count = 0, incident_count = 0,
               by_type = \<lparr>SOS = 0, INCIDENT = 0, GENERAL = 0\<rparr>\<rparr>\<rparr>"

text \<open>The body of the \<open>try\<close> block of \<open>getAllAlertsForAdmin\<close>, after the three requests have settled.\<close>

definition getAllAlertsForAdmin_try ::
  "(string \<Rightarrow> int option) \<Rightarrow> alert settled \<Rightarrow> raw_sos settled \<Rightarrow> raw_incident settled
     \<Rightarrow> js_error + snapshot" where
  "getAllAlertsForAdmin_try parse messagesRes sosRes incidentsRes =
     (let msgs = extractData messagesRes;
          sosAlerts = extractData sosRes;
          incidents = extractData incidentsRes;
          formattedMessages = map formatMessage msgs;
          formattedSOS = map formatSOS sosAlerts
      in case mapE formatIncident incidents of
           Inl e \<Rightarrow> Inl e
         | Inr formattedIncidents \<Rightarrow>
             (let allItems = arraySort (compareCreated parse)
                               (formattedMessages @ formattedSOS @ formattedIncidents)
              in Inr \<lparr>messages = allItems, stats = computeStats allItems\<rparr>))"

text \<open>
  \<open>getAllAlertsForAdmin\<close>: an exception of the \<open>try\<close> block is caught and the empty
  snapshot is returned.  The result is a sum so that "does not throw" is a statement
  about the value.
\<close>

definition getAllAlertsForAdmin ::
  "(string \<Rightarrow> int option) \<Rightarrow> alert settled \<Rightarrow> raw_sos settled \<Rightarrow> raw_incident settled
     \<Rightarrow> js_error + snapshot" where
  "getAllAlertsForAdmin parse messagesRes sosRes incidentsRes =
     (case getAllAlertsForAdmin_try parse messagesRes sosRes incidentsRes of
        Inl e \<Rightarrow> Inr emptySnapshot
      | Inr d \<Rightarrow> Inr d)"

text \<open>A \<open>Date.parse\<close> that recognises no string, for inputs none of whose dates is a string.\<close>

definition parseNothing :: "string \<Rightarrow> int option" where
  "parseNothing s = None"

section \<open>The Admin Actions page\<close>

text \<open>
  The requests the page sends to the backend: \<open>resolveSOS(id)\<close>,
  \<open>resolveIncident(id)\<close> and \<open>markMessageAsRead(id)\<close>.
\<close>

datatype call = ResolveSOS jsval | ResolveIncident jsval | MarkMessageAsRead jsval

text \<open>
  The state of the component: the three \<open>useState\<close> variables, and the list of the
  mutation requests sent so far, which is not a variable of the program but records its
  effect on the backend.
\<close>

record admin_actions =
  aa_alerts :: "alert list"
  aa_isLoading :: bool
  aa_stats :: admin_stats
  aa_calls :: "call list"

definition initialAdminActions :: admin_actions where
  "initialAdminActions =
     \<lparr>aa_alerts = [], aa_isLoading = True,
      aa_stats = \<lparr>total' = 0, unread = 0, sos_count = 0, incident_count = 0\<rparr>,
      aa_calls = []\<rparr>"

text \<open>\<open>fetchAlerts\<close> up to its \<open>await\<close>: \<open>setIsLoading(true)\<close>.\<close>

definition fetchAlerts_start :: "admin_actions \<Rightarrow> admin_actions" where
  "fetchAlerts_start s = s\<lparr>aa_isLoading := True\<rparr>"

text \<open>
  \<open>fetchAlerts\<close> from its \<open>await\<close> on; the argument is the outcome of
  \<open>getAllAlertsForAdmin()\<close>.  The \<open>catch\<close> branch empties the alerts and leaves the
  statistics as they are.
\<close>

definition fetchAlerts :: "js_error + snapshot \<Rightarrow> admin_actions \<Rightarrow> admin_actions" where
  "fetchAlerts res s =
     (case res of
        Inr data \<Rightarrow>
          (let alertsList = messages data; statsData = stats data
           in s\<lparr>aa_alerts := alertsList,
                 aa_stats :=
                   \<lparr>total' = num_or (total' statsData) (int (length alertsList)),
                    unread = num_or (unread statsData) (countUnread alertsList),
                    sos_count = num_or (SOS (by_type statsData)) (countType ''SOS'' alertsList),
                    incident_count =
                      num_or (INCIDENT (by_type statsData)) (countType ''INCIDENT'' alertsList)\<rparr>,
                 aa_isLoading := False\<rparr>)
      | Inl e \<Rightarrow> s\<lparr>aa_alerts := [], aa_isLoading := False\<rparr>)"

text \<open>The request \<open>handleResolve\<close> awaits, if any.\<close>

definition resolveCall :: "alert \<Rightarrow> call option" where
  "resolveCall alert =
     (if message_type alert = JStr ''SOS'' then Some (ResolveSOS (id' alert))
      else if message_type alert = JStr ''INCIDENT'' then Some (ResolveIncident (id' alert))
      else None)"

text \<open>\<open>alert.message_type === 'SOS' ? 'SAFE' : 'RESOLVED'\<close>.\<close>

definition resolvedStatus :: "alert \<Rightarrow> jsval" where
  "resolvedStatus alert = JStr (if message_type alert = JStr ''SOS'' then ''SAFE'' else ''RESOLVED'')"

text \<open>\<open>setStats(prev => ({...prev, unread: Math.max(prev.unread - 1, 0)}))\<close>.\<close>

definition decrementUnread :: "admin_stats \<Rightarrow> admin_stats" where
  "decrementUnread prev = prev\<lparr>unread := max (unread prev - 1) 0\<rparr>"

text \<open>
  \<open>handleResolve(alert)\<close>.  The flag tells whether the awaited request is fulfilled; when
  it is rejected the \<open>catch\<close> branch logs the error and the state is not updated.  For
  an alert that is neither an SOS nor an incident no request is sent.
\<close>

definition handleResolve :: "bool \<Rightarrow> alert \<Rightarrow> admin_actions \<Rightarrow> admin_actions" where
  "handleResolve fulfilled alert s =
     (let sent = (case resolveCall alert of None \<Rightarrow> [] | Some c \<Rightarrow> [c]);
          s1 = s\<lparr>aa_calls := aa_calls s @ sent\<rparr>
      in if sent \<noteq> [] \<and> \<not> fulfilled then s1
         else s1\<lparr>aa_alerts :=
                    map (\<lambda>a. if id' a = id' alert
                              then a\<lparr>is_read := JBool True, status := resolvedStatus alert\<rparr>
                              else a)
                      (aa_alerts s1),
                  aa_stats := decrementUnread (aa_stats s1)\<rparr>)"

text \<open>\<open>handleMarkRead(alertId)\<close>, with the same flag.\<close>

definition handleMarkRead :: "bool \<Rightarrow> jsval \<Rightarrow> admin_actions \<Rightarrow> admin_actions" where
  "handleMarkRead fulfilled alertId s =
     (let s1 = s\<lparr>aa_calls := aa_calls s @ [MarkMessageAsRead alertId]\<rparr>
      in if \<not> fulfilled then s1
         else s1\<lparr>aa_alerts :=
                    map (\<lambda>a. if id' a = alertId then a\<lparr>is_read := JBool True\<rparr> else a)
                      (aa_alerts s1),
                  aa_stats := decrementUnread (aa_stats s1)\<rparr>)"

text \<open>
  The buttons of a row: Mark Read is rendered when \<open>!alert.is_read\<close>, Resolve when
  \<open>alert.status !== 'SAFE' && alert.status !== 'RESOLVED'\<close>; the Refresh button is
  disabled while \<open>isLoading\<close>.
\<close>

definition showMarkRead :: "alert \<Rightarrow> bool" where
  "showMarkRead a = (\<not> truthy (is_read a))"

definition showResolve :: "alert \<Rightarrow> bool" where
  "showResolve a = (status a \<noteq> JStr ''SAFE'' \<and> status a \<noteq> JStr ''RESOLVED'')"

definition refreshEnabled :: "admin_actions \<Rightarrow> bool" where
  "refreshEnabled s = (\<not> aa_isLoading s)"

text \<open>
  What can happen to the page: a fetch cycle with the outcomes of its three requests,
  a resolve, and a mark-read, each mutation with the outcome of its request.
\<close>

datatype action =
  Refresh "alert settled" "raw_sos settled" "raw_incident settled"
| Resolve alert bool
| MarkRead jsval bool

fun act :: "(string \<Rightarrow> int option) \<Rightarrow> action \<Rightarrow> admin_actions \<Rightarrow> admin_actions" where
  "act parse (Refresh mr sr ir) s =
     fetchAlerts (getAllAlertsForAdmin parse mr sr ir) (fetchAlerts_start s)"
| "act parse (Resolve alert fulfilled) s = handleResolve fulfilled alert s"
| "act parse (MarkRead alertId fulfilled) s = handleMarkRead fulfilled alertId s"

fun run :: "(string \<Rightarrow> int option) \<Rightarrow> action list \<Rightarrow> admin_actions \<Rightarrow> admin_actions" where
  "run parse [] s = s"
| "run parse (a # as) s = run parse as (act parse a s)"

text \<open>The statistics agree with the alerts on the number of unread alerts.\<close>

definition unreadConsistent :: "admin_actions \<Rightarrow> bool" where
  "unreadConsistent s = (unread (aa_stats s) = countUnread (aa_alerts s))"

section \<open>The polling of the App component\<close>

text \<open>The statistics object the App component keeps: \<open>{total, unread, by_type}\<close>.\<close>

record dashboard_stats =
  app_total :: int
  app_unread :: int
  app_by_type :: type_counts

text \<open>
  The state of the App component, as far as the fetch cycles are concerned: the
  variables \<open>messages\<close>, \<open>stats\<close>, \<open>isLoading\<close> and \<open>isLoggedIn\<close>.  The variable
  \<open>alerts\<close> is a projection of \<open>messages\<close> computed item by item for display (one
  object per message, with the properties \<open>id\<close>, \<open>userName\<close>, \<open>alertType\<close>, ... and no
  \<open>is_read\<close>); it is left out.  Three more fields describe the cycles and are not
  variables of the program: \<open>app_started\<close> counts the calls of \<open>fetchData\<close>, so that the
  \<open>n\<close>-th call is cycle \<open>n\<close>; \<open>app_inFlight\<close> lists the cycles that wait for their
  data; \<open>app_applied\<close> is the cycle whose data the state shows.
\<close>

record app =
  app_messages :: "alert list"
  app_stats :: dashboard_stats
  app_isLoading :: bool
  app_isLoggedIn :: bool
  app_started :: nat
  app_inFlight :: "nat list"
  app_applied :: "nat option"

definition initialApp :: "bool \<Rightarrow> app" where
  "initialApp loggedIn =
     \<lparr>app_messages = [],
      app_stats = \<lparr>app_total = 0, app_unread = 0,
                   app_by_type = \<lparr>SOS = 0, INCIDENT = 0, GENERAL = 0\<rparr>\<rparr>,
      app_isLoading = True, app_isLoggedIn = loggedIn,
      app_started = 0, app_inFlight = [], app_applied = None\<rparr>"

text \<open>
  \<open>fetchData\<close> from its \<open>await\<close> on; the argument is the outcome of
  \<open>getAllAlertsForAdmin()\<close>.  The fallback of \<open>unread\<close> counts the items of the
  projection whose \<open>is_read\<close> is falsy, and no item of the projection has that
  property: it is the number of messages.  \<open>statsData.by_type\<close> is an object, hence
  truthy, and its fallback is never taken.
\<close>

definition fetchData :: "js_error + snapshot \<Rightarrow> app \<Rightarrow> app" where
  "fetchData res s =
     (case res of
        Inr data \<Rightarrow>
          (let messagesList = messages data; statsData = stats data
           in s\<lparr>app_messages := messagesList,
                 app_stats :=
                   \<lparr>app_total = num_or (total' statsData) (int (length messagesList)),
                    app_unread = num_or (unread statsData) (int (length messagesList)),
                    app_by_type = by_type statsData\<rparr>,
                 app_isLoading := False\<rparr>)
      | Inl e \<Rightarrow>
          s\<lparr>app_messages := [],
            app_stats := \<lparr>app_total = 0, app_unread = 0,
                           app_by_type = \<lparr>SOS = 0, INCIDENT = 0, GENERAL = 0\<rparr>\<rparr>,
            app_isLoading := False\<rparr>)"

text \<open>A call of \<open>fetchData\<close> up to its \<open>await\<close>: the requests are sent, no state is read or written.\<close>

definition startCycle :: "app \<Rightarrow> app" where
  "startCycle s = s\<lparr>app_started := Suc (app_started s),
                     app_inFlight := app_inFlight s @ [Suc (app_started s)]\<rparr>"

text \<open>
  The events of the component.  \<open>Mount\<close>: the effects run for the first time, and the
  first one calls \<open>fetchData\<close> when the user is logged in.  \<open>Login\<close>: \<open>handleLogin(true)\<close>
  sets \<open>isLoggedIn\<close> and calls \<open>fetchData\<close>, and the effect that depends on \<open>isLoggedIn\<close>
  runs again and calls \<open>fetchData\<close> a second time; the login page is rendered only when
  the user is not logged in.  \<open>Tick\<close>: the interval of 10 seconds, which exists when the
  user is logged in, calls \<open>fetchData\<close>.  \<open>Complete n res\<close>: the \<open>await\<close> of cycle \<open>n\<close>
  returns \<open>res\<close>.
\<close>

datatype event = Mount | Login | Tick | Complete nat "js_error + snapshot"

fun step :: "event \<Rightarrow> app \<Rightarrow> app" where
  "step Mount s = (if app_isLoggedIn s then startCycle s else s)"
| "step Login s =
     (if app_isLoggedIn s then s else startCycle (startCycle (s\<lparr>app_isLoggedIn := True\<rparr>)))"
| "step Tick s = (if app_isLoggedIn s then startCycle s else s)"
| "step (Complete n res) s =
     (if n \<in> set (app_inFlight s)
      then (fetchData res s)\<lparr>app_inFlight := removeAll n (app_inFlight s),
                              app_applied := Some n\<rparr>
      else s)"

fun exec :: "event list \<Rightarrow> app \<Rightarrow> app" where
  "exec [] s = s"
| "exec (e # es) s = exec es (step e s)"

section \<open>Predicates used in the statements\<close>

text \<open>The three kinds that \<open>stats.by_type\<close> counts.\<close>

definition knownType :: "alert \<Rightarrow> bool" where
  "knownType m = (message_type m = JStr ''SOS'' \<or> message_type m = JStr ''INCIDENT''
                  \<or> message_type m = JStr ''GENERAL'')"

text \<open>
  The risk level of an incident is a string, \<open>null\<close> or absent: the values for which
  \<open>inc.risk_level?.toLowerCase()\<close> does not throw.
\<close>

definition riskLevelText :: "raw_incident \<Rightarrow> bool" where
  "riskLevelText inc =
     (case inc_risk_level inc of JBool b \<Rightarrow> False | JNum n \<Rightarrow> False | _ \<Rightarrow> True)"

text \<open>
  \<open>notLater parse a b\<close>: both dates are valid and \<open>b\<close> was not created after \<open>a\<close>;
  \<open>earlier parse a b\<close>: both dates are valid and \<open>b\<close> was created before \<open>a\<close>.
\<close>

definition notLater :: "(string \<Rightarrow> int option) \<Rightarrow> alert \<Rightarrow> alert \<Rightarrow> bool" where
  "notLater parse a b =
     (case createdTime parse a of
        None \<Rightarrow> False
      | Some ta \<Rightarrow> (case createdTime parse b of None \<Rightarrow> False | Some tb \<Rightarrow> tb \<le> ta))"

definition earlier :: "(string \<Rightarrow> int option) \<Rightarrow> alert \<Rightarrow> alert \<Rightarrow> bool" where
  "earlier parse a b =
     (case createdTime parse a of
        None \<Rightarrow> False
      | Some ta \<Rightarrow> (case createdTime parse b of None \<Rightarrow> False | Some tb \<Rightarrow> tb < ta))"

text \<open>The sort key of an item with a valid date: descending by time of creation.\<close>

definition descKey :: "(string \<Rightarrow> int option) \<Rightarrow> alert \<Rightarrow> int" where
  "descKey parse a = - the (createdTime parse a)"

text \<open>
  Full-field validation of a unified alert: none of \<open>id\<close>, \<open>sourceType\<close>,
  \<open>message_type\<close>, \<open>title\<close>, \<open>content\<close>, \<open>severity\<close>, \<open>is_read\<close>, \<open>status\<close>,
  \<open>created_at\<close> and \<open>_backendId\<close> is \<open>undefined\<close>.
\<close>

definition validAlert :: "alert \<Rightarrow> bool" where
  "validAlert a =
     (id' a \<noteq> JUndefined \<and> sourceType a \<noteq> JUndefined \<and> message_type a \<noteq> JUndefined
      \<and> title a \<noteq> JUndefined \<and> content a \<noteq> JUndefined \<and> severity a \<noteq> JUndefined
      \<and> is_read a \<noteq> JUndefined \<and> status a \<noteq> JUndefined \<and> created_at a \<noteq> JUndefined
      \<and> backendId a \<noteq> JUndefined)"


section \<open>Example records\<close>

text \<open>The object \<open>{}\<close>: every property is absent.\<close>

definition emptyObject :: alert where
  "emptyObject =
     \<lparr>id' = JUndefined, message_type = JUndefined, sourceType = JUndefined,
      user_name = JUndefined, user_id = JUndefined, title = JUndefined, content = JUndefined,
      ability = JUndefined, battery = JUndefined, lat = JUndefined, lng = JUndefined,
      severity = JUndefined, is_read = JUndefined, created_at = JUndefined,
      status = JUndefined, backendId = JUndefined, category = JUndefined,
      description = JUndefined, risk_score = JUndefined, risk_level = JUndefined,
      image_url = JUndefined\<rparr>"

text \<open>
  A message with all the properties the endpoint documents: \<open>id\<close>, \<open>user_id\<close>,
  \<open>user_name\<close>, \<open>message_type\<close>, \<open>title\<close>, \<open>content\<close>, and the read flag and date.
\<close>

definition msgGeneral :: alert where
  "msgGeneral =
     emptyObject\<lparr>id' := JStr ''m1'', user_id := JStr ''u1'', user_name := JStr ''Ann'',
                 message_type := JStr ''GENERAL'', title := JStr ''Road closed'',
                 content := JStr ''Bridge street is closed'', is_read := JBool False,
                 created_at := JNum 1000\<rparr>"

text \<open>The same message with a type tag outside \<open>SOS\<close>, \<open>INCIDENT\<close>, \<open>GENERAL\<close>.\<close>

definition msgOther :: alert where
  "msgOther = msgGeneral\<lparr>id' := JStr ''m2'', message_type := JStr ''ALERT''\<rparr>"

definition sosS1 :: raw_sos where
  "sosS1 =
     \<lparr>sos_id = JStr ''s1'', sos_user_id = JStr ''u2'', sos_ability = JStr ''BLIND'',
      sos_lat = JNum 12, sos_lng = JNum 77, sos_battery = JNum 80,
      sos_status = JStr ''NEED_HELP'', sos_created_at = JNum 3000\<rparr>"

definition incI1 :: raw_incident where
  "incI1 =
     \<lparr>inc_id = JStr ''i1'', inc_user_id = JStr ''u3'', inc_type = JStr ''FIRE'',
      inc_description = JStr ''Smoke in the stairwell'', inc_lat = JNum 12, inc_lng = JNum 77,
      inc_status = JStr ''VERIFIED'', inc_image_url = JNull, inc_risk_score = JNum 80,
      inc_risk_level = JStr ''HIGH'', inc_created_at = JNum 2000\<rparr>"

text \<open>
  The page after a fetch cycle in which the SOS request failed: the incident (verified,
  hence read) comes first, the unread message second.
\<close>

definition stateA :: admin_actions where
  "stateA = run parseNothing
     [Refresh (Fulfilled (Some [msgGeneral])) Rejected (Fulfilled (Some [incI1]))]
     initialAdminActions"

text \<open>
  The page after a fetch cycle in which the incident request failed: the SOS alert
  comes first, the message second, and both are unread.
\<close>

definition stateB :: admin_actions where
  "stateB = run parseNothing
     [Refresh (Fulfilled (Some [msgGeneral])) (Fulfilled (Some [sosS1])) Rejected]
     initialAdminActions"

text \<open>The SOS alert of \<open>stateB\<close> as it is after it has been resolved.\<close>

definition resolvedS1 :: alert where
  "resolvedS1 = (formatSOS sosS1)\<lparr>is_read := JBool True, status := JStr ''SAFE''\<rparr>"

text \<open>\<open>stateB\<close> after the SOS alert has been resolved.\<close>

definition stateB1 :: admin_actions where
  "stateB1 = run parseNothing [Resolve (formatSOS sosS1) True] stateB"

text \<open>An incident whose risk level is a number.\<close>

definition incBad :: raw_incident where
  "incBad = incI1\<lparr>inc_id := JStr ''i2'', inc_risk_level := JNum 3\<rparr>"

text \<open>The snapshot that holds the one message \<open>msgGeneral\<close>.\<close>

definition snapshotM :: snapshot where
  "snapshotM = \<lparr>messages = [formatMessage msgGeneral],
                 stats = computeStats [formatMessage msgGeneral]\<rparr>"

section \<open>Lemmas about the sort\<close>

lemma mset_sortInsert: "mset (sortInsert cmp x xs) = add_mset x (mset xs)"
  by (induction xs) auto

lemma mset_arraySort: "mset (arraySort cmp xs) = mset xs"
  by (induction xs) (auto simp: mset_sortInsert)

lemma length_arraySort: "length (arraySort cmp xs) = length xs"
  using mset_arraySort [of cmp xs] by (metis size_mset)

lemma set_arraySort: "set (arraySort cmp xs) = set xs"
  using mset_arraySort [of cmp xs] by (metis set_mset_mset)

lemma length_filter_arraySort:
  "length (filter P (arraySort cmp xs)) = length (filter P xs)"
proof -
  have "mset (filter P (arraySort cmp xs)) = mset (filter P xs)"
    by (simp add: mset_arraySort)
  then show ?thesis by (metis size_mset)
qed

lemma sortInsert_insort:
  assumes "createdTime parse x \<noteq> None" and "\<forall>y\<in>set ys. createdTime parse y \<noteq> None"
  shows "sortInsert (compareCreated parse) x ys = insort_key (descKey parse) x ys"
  using assms
  by (induction ys) (auto simp: sortCompare_def compareCreated_def descKey_def)

lemma arraySort_sort_key:
  assumes "\<forall>y\<in>set xs. createdTime parse y \<noteq> None"
  shows "arraySort (compareCreated parse) xs = sort_key (descKey parse) xs"
  using assms
proof (induction xs)
  case Nil
  then show ?case by simp
next
  case (Cons x xs)
  then have "arraySort (compareCreated parse) xs = sort_key (descKey parse) xs" by simp
  moreover have "\<forall>y\<in>set (sort_key (descKey parse) xs). createdTime parse y \<noteq> None"
    using Cons.prems by simp
  ultimately show ?case
    using Cons.prems by (simp add: sortInsert_insort)
qed

lemma descKey_eq:
  assumes "createdTime parse a \<noteq> None" "createdTime parse b \<noteq> None"
  shows "descKey parse a = descKey parse b \<longleftrightarrow> createdTime parse a = createdTime parse b"
  using assms by (auto simp: descKey_def)

lemma descKey_le:
  assumes "createdTime parse a \<noteq> None" "createdTime parse b \<noteq> None"
  shows "descKey parse a \<le> descKey parse b \<longleftrightarrow> notLater parse a b"
  using assms by (auto simp: descKey_def notLater_def)

lemma descKey_less:
  assumes "createdTime parse a \<noteq> None" "createdTime parse b \<noteq> None"
  shows "descKey parse a < descKey parse b \<longleftrightarrow> earlier parse a b"
  using assms by (auto simp: descKey_def earlier_def)

lemma arraySort_sorted:
  assumes valid: "\<forall>a\<in>set xs. createdTime parse a \<noteq> None"
  shows "sorted_wrt (notLater parse) (arraySort (compareCreated parse) xs)"
proof -
  let ?ys = "sort_key (descKey parse) xs"
  have "sorted (map (descKey parse) ?ys)" by simp
  then have "sorted_wrt (\<lambda>a b. descKey parse a \<le> descKey parse b) ?ys"
    by (simp add: sorted_map)
  then have "sorted_wrt (notLater parse) ?ys"
    by (rule sorted_wrt_mono_rel [rotated]) (use valid in \<open>simp add: descKey_le\<close>)
  then show ?thesis by (simp add: arraySort_sort_key [OF valid])
qed

lemma arraySort_stable:
  assumes valid: "\<forall>a\<in>set xs. createdTime parse a \<noteq> None"
  shows "filter (\<lambda>a. createdTime parse a = t) (arraySort (compareCreated parse) xs)
           = filter (\<lambda>a. createdTime parse a = t) xs"
proof (cases t)
  case None
  have "filter (\<lambda>a. createdTime parse a = None) (arraySort (compareCreated parse) xs) = []"
    using valid by (simp add: filter_empty_conv set_arraySort)
  moreover have "filter (\<lambda>a. createdTime parse a = None) xs = []"
    using valid by (simp add: filter_empty_conv)
  ultimately show ?thesis using None by simp
next
  case (Some v)
  let ?ys = "sort_key (descKey parse) xs"
  have same: "\<And>a. a \<in> set xs \<Longrightarrow> (createdTime parse a = t) = (descKey parse a = - v)"
    using valid Some by (auto simp: descKey_def)
  have "filter (\<lambda>a. createdTime parse a = t) ?ys = filter (\<lambda>a. descKey parse a = - v) ?ys"
    by (rule filter_cong) (simp_all add: same)
  also have "\<dots> = filter (\<lambda>a. descKey parse a = - v) xs"
    by (rule sort_key_stable)
  also have "\<dots> = filter (\<lambda>a. createdTime parse a = t) xs"
    by (rule filter_cong) (simp_all add: same)
  finally show ?thesis by (simp add: arraySort_sort_key [OF valid])
qed

lemma arraySort_strict:
  assumes valid: "\<forall>a\<in>set xs. createdTime parse a \<noteq> None"
    and dist: "distinct (map (createdTime parse) xs)"
  shows "sorted_wrt (earlier parse) (arraySort (compareCreated parse) xs)"
proof -
  let ?ys = "sort_key (descKey parse) xs"
  have inj: "inj_on (descKey parse) (set xs)"
  proof (rule inj_onI)
    fix a b assume "a \<in> set xs" "b \<in> set xs" "descKey parse a = descKey parse b"
    then have "createdTime parse a = createdTime parse b"
      using valid by (simp add: descKey_eq)
    then show "a = b"
      using dist \<open>a \<in> set xs\<close> \<open>b \<in> set xs\<close> by (auto simp: distinct_map dest: inj_onD)
  qed
  have "distinct xs" using dist by (simp add: distinct_map)
  then have "distinct (map (descKey parse) ?ys)"
    using inj by (simp add: distinct_map)
  moreover have "sorted (map (descKey parse) ?ys)" by simp
  ultimately have "sorted_wrt (<) (map (descKey parse) ?ys)"
    by (simp add: strict_sorted_iff)
  then have "sorted_wrt (\<lambda>a b. descKey parse a < descKey parse b) ?ys"
    by (simp add: sorted_wrt_map)
  then have "sorted_wrt (earlier parse) ?ys"
    by (rule sorted_wrt_mono_rel [rotated]) (use valid in \<open>simp add: descKey_less\<close>)
  then show ?thesis by (simp add: arraySort_sort_key [OF valid])
qed

section \<open>Lemmas about the aggregation\<close>

lemma try_unfold:
  "getAllAlertsForAdmin_try parse mr sr ir =
     (case mapE formatIncident (extractData ir) of
        Inl e \<Rightarrow> Inl e
      | Inr fi \<Rightarrow>
          Inr \<lparr>messages = arraySort (compareCreated parse)
                   (map formatMessage (extractData mr) @ map formatSOS (extractData sr) @ fi),
               stats = computeStats (arraySort (compareCreated parse)
                   (map formatMessage (extractData mr) @ map formatSOS (extractData sr) @ fi))\<rparr>)"
  by (simp add: getAllAlertsForAdmin_try_def Let_def split: sum.splits)

lemma emptySnapshot_computeStats:
  "emptySnapshot = \<lparr>messages = [], stats = computeStats []\<rparr>"
  by (simp add: emptySnapshot_def computeStats_def countType_def countUnread_def)

lemma getAll_shape:
  "\<exists>items. getAllAlertsForAdmin parse mr sr ir = Inr \<lparr>messages = items, stats = computeStats items\<rparr>"
  by (auto simp: getAllAlertsForAdmin_def try_unfold emptySnapshot_computeStats split: sum.splits)

lemma mapE_Inr: "mapE f xs = Inr ys \<Longrightarrow> map f xs = map Inr ys"
  by (induction xs arbitrary: ys) (auto split: sum.splits)

lemma mapE_map_Inr: "map f xs = map Inr ys \<Longrightarrow> mapE f xs = Inr ys"
  by (induction xs arbitrary: ys) auto

lemma getAll_no_throw:
  assumes "map formatIncident (extractData ir) = map Inr fi"
  shows "getAllAlertsForAdmin parse mr sr ir =
     Inr \<lparr>messages = arraySort (compareCreated parse)
                   (map formatMessage (extractData mr) @ map formatSOS (extractData sr) @ fi),
          stats = computeStats (arraySort (compareCreated parse)
                   (map formatMessage (extractData mr) @ map formatSOS (extractData sr) @ fi))\<rparr>"
proof -
  have "mapE formatIncident (extractData ir) = Inr fi"
    using assms by (rule mapE_map_Inr)
  then show ?thesis
    by (simp add: getAllAlertsForAdmin_def try_unfold)
qed

lemma formatIncident_text:
  "riskLevelText inc \<Longrightarrow> \<exists>a. formatIncident inc = Inr a"
  by (cases "inc_risk_level inc") (auto simp: riskLevelText_def formatIncident_def)

lemma formatIncidents_text:
  "\<forall>inc\<in>set incs. riskLevelText inc \<Longrightarrow> \<exists>fi. map formatIncident incs = map Inr fi"
proof (induction incs)
  case Nil
  then show ?case by simp
next
  case (Cons inc incs)
  then obtain fi where "map formatIncident incs = map Inr fi" by auto
  moreover obtain a where "formatIncident inc = Inr a"
    using Cons.prems formatIncident_text by auto
  ultimately have "map formatIncident (inc # incs) = map Inr (a # fi)" by simp
  then show ?case by blast
qed

lemma count_known:
  "countType ''SOS'' xs + countType ''INCIDENT'' xs + countType ''GENERAL'' xs
     = int (length (filter knownType xs))"
  by (induction xs) (auto simp: countType_def knownType_def)

lemma count_split:
  "int (length (filter knownType xs)) + int (length (filter (\<lambda>m. \<not> knownType m) xs))
     = int (length xs)"
  by (induction xs) auto

lemma known_total_iff:
  "countType ''SOS'' xs + countType ''INCIDENT'' xs + countType ''GENERAL'' xs = int (length xs)
     \<longleftrightarrow> (\<forall>m\<in>set xs. knownType m)"
proof -
  have "countType ''SOS'' xs + countType ''INCIDENT'' xs + countType ''GENERAL'' xs = int (length xs)
     \<longleftrightarrow> length (filter (\<lambda>m. \<not> knownType m) xs) = 0"
    using count_known [of xs] count_split [of xs] by linarith
  also have "\<dots> \<longleftrightarrow> (\<forall>m\<in>set xs. knownType m)"
    by (simp add: filter_empty_conv)
  finally show ?thesis .
qed

lemma knownType_formatMessage: "knownType (formatMessage m) = knownType m"
  by (simp add: knownType_def formatMessage_def)

lemma knownType_formatSOS: "knownType (formatSOS s)"
  by (simp add: knownType_def formatSOS_def)

lemma knownType_formatIncident: "formatIncident i = Inr a \<Longrightarrow> knownType a"
  by (auto simp: knownType_def formatIncident_def split: sum.splits)

lemma knownType_incidents:
  "map formatIncident incs = map Inr fi \<Longrightarrow> \<forall>a\<in>set fi. knownType a"
proof (induction incs arbitrary: fi)
  case Nil
  then show ?case by simp
next
  case (Cons inc incs)
  then obtain a fi' where fi: "fi = a # fi'" "formatIncident inc = Inr a"
      "map formatIncident incs = map Inr fi'"
    by (cases fi) auto
  then show ?case using Cons.IH [of fi'] knownType_formatIncident by auto
qed

section \<open>The SOS adapter\<close>

text \<open>
  C7.  For every raw SOS record the adapter yields the kind \<open>SOS\<close>, the severity
  \<open>critical\<close>, a read flag that is true exactly when the upstream status is \<open>SAFE\<close>, and
  the title \<open>SOS Alert (<ability>)\<close>, where a missing or empty ability is shown as
  \<open>Unknown\<close>; the record \<open>{id: "s1", status: "NEED_HELP", ability: "BLIND"}\<close> gives
  kind \<open>SOS\<close>, severity \<open>critical\<close>, unread, and the title \<open>SOS Alert (BLIND)\<close>.
\<close>

theorem formatSOS_fields:
  "message_type (formatSOS sos) = JStr ''SOS''
   \<and> severity (formatSOS sos) = JStr ''critical''
   \<and> is_read (formatSOS sos) = JBool (sos_status sos = JStr ''SAFE'')
   \<and> title (formatSOS sos) =
       JStr (''SOS Alert ('' @ toString (js_or (sos_ability sos) (JStr ''Unknown'')) @ '')'')
   \<and> title (formatSOS (sos\<lparr>sos_ability := JStr (c # cs)\<rparr>)) = JStr (''SOS Alert ('' @ c # cs @ '')'')
   \<and> (let a = formatSOS \<lparr>sos_id = JStr ''s1'', sos_user_id = u, sos_ability = JStr ''BLIND'',
                           sos_lat = la, sos_lng = ln, sos_battery = b,
                           sos_status = JStr ''NEED_HELP'', sos_created_at = t0\<rparr>
        in message_type a = JStr ''SOS'' \<and> severity a = JStr ''critical''
           \<and> is_read a = JBool False \<and> title a = JStr ''SOS Alert (BLIND)'')"
  by (simp add: formatSOS_def js_or_def)

section \<open>Statistics of a snapshot\<close>

text \<open>
  C1 (as amended).  For every combination of inputs the snapshot returned by
  \<open>getAllAlertsForAdmin\<close> has \<open>stats.total\<close> equal to the number of alerts and
  \<open>stats.unread\<close> equal to the number of alerts whose \<open>is_read\<close> is false.  The sum
  \<open>by_type.SOS + by_type.INCIDENT + by_type.GENERAL\<close> is the number of alerts whose
  \<open>message_type\<close> is one of these three: it equals \<open>stats.total\<close> exactly when every
  alert of the snapshot has such a type, which is the case when every message record
  has one.
\<close>

theorem getAllAlertsForAdmin_stats:
  "\<exists>d. getAllAlertsForAdmin parse mr sr ir = Inr d
     \<and> total' (stats d) = int (length (messages d))
     \<and> unread (stats d) = int (length (filter (\<lambda>m. \<not> truthy (is_read m)) (messages d)))
     \<and> SOS (by_type (stats d)) + INCIDENT (by_type (stats d)) + GENERAL (by_type (stats d))
         = int (length (filter knownType (messages d)))
     \<and> (SOS (by_type (stats d)) + INCIDENT (by_type (stats d)) + GENERAL (by_type (stats d))
          = total' (stats d) \<longleftrightarrow> (\<forall>m\<in>set (messages d). knownType m))
     \<and> ((\<forall>m\<in>set (extractData mr). knownType m) \<longrightarrow>
          SOS (by_type (stats d)) + INCIDENT (by_type (stats d)) + GENERAL (by_type (stats d))
            = total' (stats d))"
proof -
  obtain items where d: "getAllAlertsForAdmin parse mr sr ir
      = Inr \<lparr>messages = items, stats = computeStats items\<rparr>"
    using getAll_shape by blast
  have known: "\<forall>m\<in>set items. knownType m" if raw: "\<forall>m\<in>set (extractData mr). knownType m"
  proof (cases "mapE formatIncident (extractData ir)")
    case (Inl e)
    then have "items = []"
      using d by (simp add: getAllAlertsForAdmin_def try_unfold emptySnapshot_def)
    then show ?thesis by simp
  next
    case (Inr fi)
    then have "items = arraySort (compareCreated parse)
        (map formatMessage (extractData mr) @ map formatSOS (extractData sr) @ fi)"
      using d by (simp add: getAllAlertsForAdmin_def try_unfold)
    moreover have "\<forall>a\<in>set fi. knownType a"
      using Inr knownType_incidents mapE_Inr by blast
    ultimately show ?thesis
      using raw by (auto simp: set_arraySort knownType_formatMessage knownType_formatSOS)
  qed
  have "total' (computeStats items) = int (length items)"
    by (simp add: computeStats_def)
  moreover have "unread (computeStats items)
      = int (length (filter (\<lambda>m. \<not> truthy (is_read m)) items))"
    by (simp add: computeStats_def countUnread_def)
  moreover have "SOS (by_type (computeStats items)) + INCIDENT (by_type (computeStats items))
      + GENERAL (by_type (computeStats items)) = int (length (filter knownType items))"
    by (simp add: computeStats_def count_known)
  moreover have "SOS (by_type (computeStats items)) + INCIDENT (by_type (computeStats items))
      + GENERAL (by_type (computeStats items)) = total' (computeStats items)
      \<longleftrightarrow> (\<forall>m\<in>set items. knownType m)"
    by (simp add: computeStats_def known_total_iff)
  ultimately show ?thesis
    using d known by auto
qed

theorem getAllAlertsForAdmin_stats_witness:
  "knownType msgGeneral
   \<and> (\<exists>d. getAllAlertsForAdmin parseNothing (Fulfilled (Some [msgGeneral]))
              (Fulfilled (Some [sosS1])) Rejected = Inr d
          \<and> SOS (by_type (stats d)) + INCIDENT (by_type (stats d)) + GENERAL (by_type (stats d))
              = total' (stats d))"
  using getAllAlertsForAdmin_stats
    [of parseNothing "Fulfilled (Some [msgGeneral])" "Fulfilled (Some [sosS1])" Rejected]
  by (auto simp: knownType_def msgGeneral_def)

text \<open>
  The claim as stated fails for a message whose type is \<open>ALERT\<close>: the snapshot has one
  alert and \<open>total = 1\<close>, and the three counters of \<open>by_type\<close> are all zero.
\<close>

theorem getAllAlertsForAdmin_stats_counterexample:
  "getAllAlertsForAdmin parseNothing (Fulfilled (Some [msgOther])) Rejected Rejected
     = Inr \<lparr>messages = [formatMessage msgOther],
            stats = \<lparr>total' = 1, unread = 1, sos_count = 0, incident_count = 0,
                     by_type = \<lparr>SOS = 0, INCIDENT = 0, GENERAL = 0\<rparr>\<rparr>\<rparr>
   \<and> SOS (by_type (stats (projr
         (getAllAlertsForAdmin parseNothing (Fulfilled (Some [msgOther])) Rejected Rejected))))
       + INCIDENT (by_type (stats (projr
         (getAllAlertsForAdmin parseNothing (Fulfilled (Some [msgOther])) Rejected Rejected))))
       + GENERAL (by_type (stats (projr
         (getAllAlertsForAdmin parseNothing (Fulfilled (Some [msgOther])) Rejected Rejected))))
     \<noteq> total' (stats (projr
         (getAllAlertsForAdmin parseNothing (Fulfilled (Some [msgOther])) Rejected Rejected)))"
proof -
  have "getAllAlertsForAdmin parseNothing (Fulfilled (Some [msgOther])) Rejected Rejected
     = Inr \<lparr>messages = [formatMessage msgOther],
            stats = \<lparr>total' = 1, unread = 1, sos_count = 0, incident_count = 0,
                     by_type = \<lparr>SOS = 0, INCIDENT = 0, GENERAL = 0\<rparr>\<rparr>\<rparr>"
    by (simp add: getAllAlertsForAdmin_def try_unfold computeStats_def countType_def
        countUnread_def formatMessage_def msgOther_def msgGeneral_def emptyObject_def)
  then show ?thesis by simp
qed

section \<open>Failure of a source\<close>

lemma formatIncident_throws:
  "\<not> riskLevelText inc \<Longrightarrow> formatIncident inc = Inl TypeError"
  by (cases "inc_risk_level inc") (simp_all add: riskLevelText_def formatIncident_def)

lemma formatIncidents_throw:
  "\<exists>inc\<in>set incs. \<not> riskLevelText inc \<Longrightarrow> \<exists>e. mapE formatIncident incs = Inl e"
proof (induction incs)
  case Nil
  then show ?case by simp
next
  case (Cons inc incs)
  show ?case
  proof (cases "riskLevelText inc")
    case True
    then obtain a where a: "formatIncident inc = Inr a"
      using formatIncident_text by blast
    from True Cons.prems have "\<exists>inc\<in>set incs. \<not> riskLevelText inc" by simp
    then obtain e where "mapE formatIncident incs = Inl e"
      using Cons.IH by blast
    with a show ?thesis by simp
  next
    case False
    then show ?thesis by (simp add: formatIncident_throws)
  qed
qed

text \<open>
  C5 (as amended).  \<open>getAllAlertsForAdmin\<close> never throws, whatever the outcomes of the
  three requests.  A rejected request, and a fulfilled one whose body lacks the
  collection, contribute what an empty collection contributes.  When all three are
  rejected the result is the empty snapshot, with \<open>total = 0\<close>.  When the risk level of
  every incident received is a string, \<open>null\<close> or absent, the snapshot holds exactly the
  normalised records of the sources that succeeded: for any three collections and any
  choice of the requests that succeed, its alerts are a permutation of the normalised
  collections of the requests that succeeded.  When the incident request succeeds with
  an incident whose risk level is a number or a boolean, normalising it throws, and the
  result is the empty snapshot whatever the other sources delivered.
\<close>

theorem getAllAlertsForAdmin_fail_soft:
  "(\<exists>d. getAllAlertsForAdmin parse mr sr ir = Inr d)
   \<and> getAllAlertsForAdmin parse Rejected sr ir
       = getAllAlertsForAdmin parse (Fulfilled (Some [])) sr ir
   \<and> getAllAlertsForAdmin parse mr Rejected ir
       = getAllAlertsForAdmin parse mr (Fulfilled (Some [])) ir
   \<and> getAllAlertsForAdmin parse mr sr Rejected
       = getAllAlertsForAdmin parse mr sr (Fulfilled (Some []))
   \<and> getAllAlertsForAdmin parse (Fulfilled None) sr ir
       = getAllAlertsForAdmin parse (Fulfilled (Some [])) sr ir
   \<and> getAllAlertsForAdmin parse mr (Fulfilled None) ir
       = getAllAlertsForAdmin parse mr (Fulfilled (Some [])) ir
   \<and> getAllAlertsForAdmin parse mr sr (Fulfilled None)
       = getAllAlertsForAdmin parse mr sr (Fulfilled (Some []))
   \<and> getAllAlertsForAdmin parse Rejected Rejected Rejected = Inr emptySnapshot
   \<and> messages emptySnapshot = [] \<and> total' (stats emptySnapshot) = 0
   \<and> ((okI \<longrightarrow> (\<forall>inc\<in>set incs. riskLevelText inc)) \<longrightarrow>
        (\<exists>d fi. getAllAlertsForAdmin parse
                   (if okM then Fulfilled (Some msgs) else Rejected)
                   (if okS then Fulfilled (Some soss) else Rejected)
                   (if okI then Fulfilled (Some incs) else Rejected) = Inr d
           \<and> map formatIncident (if okI then incs else []) = map Inr fi
           \<and> mset (messages d)
               = mset (map formatMessage (if okM then msgs else []))
                 + mset (map formatSOS (if okS then soss else []))
                 + mset fi))
   \<and> ((\<exists>inc\<in>set incs. \<not> riskLevelText inc) \<longrightarrow>
        getAllAlertsForAdmin parse mr sr (Fulfilled (Some incs)) = Inr emptySnapshot)"
proof -
  have 1: "\<exists>d. getAllAlertsForAdmin parse mr sr ir = Inr d"
    using getAll_shape by blast
  have 2: "getAllAlertsForAdmin parse Rejected sr ir
       = getAllAlertsForAdmin parse (Fulfilled (Some [])) sr ir"
    by (simp add: getAllAlertsForAdmin_def try_unfold split: sum.splits)
  have 3: "getAllAlertsForAdmin parse mr Rejected ir
       = getAllAlertsForAdmin parse mr (Fulfilled (Some [])) ir"
    by (simp add: getAllAlertsForAdmin_def try_unfold split: sum.splits)
  have 4: "getAllAlertsForAdmin parse mr sr Rejected
       = getAllAlertsForAdmin parse mr sr (Fulfilled (Some []))"
    by (simp add: getAllAlertsForAdmin_def try_unfold split: sum.splits)
  have 5: "getAllAlertsForAdmin parse (Fulfilled None) sr ir
       = getAllAlertsForAdmin parse (Fulfilled (Some [])) sr ir"
    by (simp add: getAllAlertsForAdmin_def try_unfold split: sum.splits)
  have 6: "getAllAlertsForAdmin parse mr (Fulfilled None) ir
       = getAllAlertsForAdmin parse mr (Fulfilled (Some [])) ir"
    by (simp add: getAllAlertsForAdmin_def try_unfold split: sum.splits)
  have 7: "getAllAlertsForAdmin parse mr sr (Fulfilled None)
       = getAllAlertsForAdmin parse mr sr (Fulfilled (Some []))"
    by (simp add: getAllAlertsForAdmin_def try_unfold split: sum.splits)
  have 8: "getAllAlertsForAdmin parse Rejected Rejected Rejected = Inr emptySnapshot"
    by (simp add: getAllAlertsForAdmin_def try_unfold emptySnapshot_computeStats)
  have 9: "messages emptySnapshot = [] \<and> total' (stats emptySnapshot) = 0"
    by (simp add: emptySnapshot_def)
  have 10: "(okI \<longrightarrow> (\<forall>inc\<in>set incs. riskLevelText inc)) \<longrightarrow>
        (\<exists>d fi. getAllAlertsForAdmin parse
                   (if okM then Fulfilled (Some msgs) else Rejected)
                   (if okS then Fulfilled (Some soss) else Rejected)
                   (if okI then Fulfilled (Some incs) else Rejected) = Inr d
           \<and> map formatIncident (if okI then incs else []) = map Inr fi
           \<and> mset (messages d)
               = mset (map formatMessage (if okM then msgs else []))
                 + mset (map formatSOS (if okS then soss else []))
                 + mset fi)"
  proof
    assume ok: "okI \<longrightarrow> (\<forall>inc\<in>set incs. riskLevelText inc)"
    let ?mr = "if okM then Fulfilled (Some msgs) else Rejected"
    let ?sr = "if okS then Fulfilled (Some soss) else Rejected"
    let ?ir = "if okI then Fulfilled (Some incs) else Rejected"
    have em: "extractData ?mr = (if okM then msgs else [])" by simp
    have es: "extractData ?sr = (if okS then soss else [])" by simp
    have ei: "extractData ?ir = (if okI then incs else [])" by simp
    have "\<forall>inc\<in>set (if okI then incs else []). riskLevelText inc"
      using ok by simp
    then obtain fi where fi: "map formatIncident (if okI then incs else []) = map Inr fi"
      using formatIncidents_text by blast
    then have fi': "map formatIncident (extractData ?ir) = map Inr fi"
      by (simp only: ei)
    have "mset (messages (projr (getAllAlertsForAdmin parse ?mr ?sr ?ir)))
        = mset (map formatMessage (extractData ?mr)) + mset (map formatSOS (extractData ?sr))
          + mset fi"
      unfolding getAll_no_throw [OF fi'] by (simp add: mset_arraySort)
    moreover have "getAllAlertsForAdmin parse ?mr ?sr ?ir
        = Inr (projr (getAllAlertsForAdmin parse ?mr ?sr ?ir))"
      unfolding getAll_no_throw [OF fi'] by simp
    ultimately show "\<exists>d fi. getAllAlertsForAdmin parse ?mr ?sr ?ir = Inr d
           \<and> map formatIncident (if okI then incs else []) = map Inr fi
           \<and> mset (messages d)
               = mset (map formatMessage (if okM then msgs else []))
                 + mset (map formatSOS (if okS then soss else []))
                 + mset fi"
      using fi unfolding em es by blast
  qed
  have 11: "(\<exists>inc\<in>set incs. \<not> riskLevelText inc) \<longrightarrow>
        getAllAlertsForAdmin parse mr sr (Fulfilled (Some incs)) = Inr emptySnapshot"
  proof
    assume "\<exists>inc\<in>set incs. \<not> riskLevelText inc"
    then obtain e where "mapE formatIncident incs = Inl e"
      using formatIncidents_throw by blast
    then show "getAllAlertsForAdmin parse mr sr (Fulfilled (Some incs)) = Inr emptySnapshot"
      by (simp add: getAllAlertsForAdmin_def try_unfold)
  qed
  show ?thesis
    by (intro conjI) (fact 1, fact 2, fact 3, fact 4, fact 5, fact 6, fact 7, fact 8,
        fact 9 [THEN conjunct1], fact 9 [THEN conjunct2], fact 10, fact 11)
qed

text \<open>
  The SOS request fails and the two others succeed, with two messages and an incident;
  and all three succeed, with an incident whose risk level is the number 3.
\<close>

theorem getAllAlertsForAdmin_fail_soft_witness:
  "riskLevelText incI1
   \<and> (\<exists>d fi. getAllAlertsForAdmin parseNothing (Fulfilled (Some [msgGeneral, msgOther])) Rejected
                 (Fulfilled (Some [incI1])) = Inr d
          \<and> [formatIncident incI1] = map Inr fi
          \<and> mset (messages d) = {#formatMessage msgGeneral, formatMessage msgOther#} + mset fi)
   \<and> \<not> riskLevelText incBad
   \<and> getAllAlertsForAdmin parseNothing (Fulfilled (Some [msgGeneral])) Rejected
        (Fulfilled (Some [incI1, incBad])) = Inr emptySnapshot"
proof -
  have ok: "riskLevelText incI1"
    by (simp add: riskLevelText_def incI1_def)
  have bad: "\<not> riskLevelText incBad"
    by (simp add: riskLevelText_def incBad_def)
  note inst1 = getAllAlertsForAdmin_fail_soft
      [of parseNothing "Fulfilled (Some [msgGeneral])" Rejected "Fulfilled (Some [incI1])"
          True "[incI1]" True "[msgGeneral, msgOther]" False "[]"]
  note inst2 = getAllAlertsForAdmin_fail_soft
      [of parseNothing "Fulfilled (Some [msgGeneral])" Rejected "Fulfilled (Some [incI1])"
          True "[incI1, incBad]" True "[msgGeneral, msgOther]" False "[]"]
  have a: "\<exists>d fi. getAllAlertsForAdmin parseNothing (Fulfilled (Some [msgGeneral, msgOther])) Rejected
                 (Fulfilled (Some [incI1])) = Inr d
          \<and> [formatIncident incI1] = map Inr fi
          \<and> mset (messages d) = {#formatMessage msgGeneral, formatMessage msgOther#} + mset fi"
    using inst1 ok by simp
  have b: "getAllAlertsForAdmin parseNothing (Fulfilled (Some [msgGeneral])) Rejected
        (Fulfilled (Some [incI1, incBad])) = Inr emptySnapshot"
    using inst2 bad by simp
  show ?thesis using ok a bad b by blast
qed

text \<open>
  The claim as stated fails: all three requests succeed, and because the second
  incident has the risk level 3 the snapshot is empty, although the message, the SOS
  record and the first incident were delivered.
\<close>

theorem getAllAlertsForAdmin_fail_soft_counterexample:
  "getAllAlertsForAdmin parseNothing (Fulfilled (Some [msgGeneral])) (Fulfilled (Some [sosS1]))
     (Fulfilled (Some [incI1, incBad])) = Inr emptySnapshot
   \<and> messages emptySnapshot = []"
  by (simp add: getAllAlertsForAdmin_def try_unfold formatIncident_def incI1_def incBad_def
      emptySnapshot_def toLowerCase_def lowerChar_def split: sum.splits)

section \<open>Order of the alerts\<close>

text \<open>
  C9.  When the incidents normalise without an exception and every \<open>created_at\<close> is a
  valid date, the alerts of the snapshot are the concatenation of the normalised
  messages, SOS records and incidents, in that order, sorted stably and descending by
  \<open>created_at\<close>: they are the result of the library's stable sort by the negated
  time of creation, a permutation of the concatenation, no alert is followed by a
  later one, the alerts of one and the same date keep their order in the concatenation,
  and when the dates are pairwise distinct every alert is strictly later than those
  that follow it.
\<close>

theorem getAllAlertsForAdmin_sorted:
  assumes "map formatIncident (extractData ir) = map Inr fi"
    and "allItems = map formatMessage (extractData mr) @ map formatSOS (extractData sr) @ fi"
    and "\<forall>a\<in>set allItems. createdTime parse a \<noteq> None"
  shows "\<exists>d. getAllAlertsForAdmin parse mr sr ir = Inr d
     \<and> messages d = sort_key (descKey parse) allItems
     \<and> mset (messages d) = mset allItems
     \<and> sorted_wrt (notLater parse) (messages d)
     \<and> (\<forall>t. filter (\<lambda>a. createdTime parse a = t) (messages d)
              = filter (\<lambda>a. createdTime parse a = t) allItems)
     \<and> (distinct (map (createdTime parse) allItems) \<longrightarrow> sorted_wrt (earlier parse) (messages d))"
proof -
  have "getAllAlertsForAdmin parse mr sr ir
     = Inr \<lparr>messages = arraySort (compareCreated parse) allItems,
            stats = computeStats (arraySort (compareCreated parse) allItems)\<rparr>"
    using getAll_no_throw [OF assms(1), of parse mr sr] assms(2) by simp
  moreover have "arraySort (compareCreated parse) allItems = sort_key (descKey parse) allItems"
    by (rule arraySort_sort_key [OF assms(3)])
  moreover have "mset (arraySort (compareCreated parse) allItems) = mset allItems"
    by (rule mset_arraySort)
  moreover have "sorted_wrt (notLater parse) (arraySort (compareCreated parse) allItems)"
    by (rule arraySort_sorted [OF assms(3)])
  moreover have "\<forall>t. filter (\<lambda>a. createdTime parse a = t) (arraySort (compareCreated parse) allItems)
              = filter (\<lambda>a. createdTime parse a = t) allItems"
    by (simp add: arraySort_stable [OF assms(3)])
  moreover have "distinct (map (createdTime parse) allItems)
      \<longrightarrow> sorted_wrt (earlier parse) (arraySort (compareCreated parse) allItems)"
    by (simp add: arraySort_strict [OF assms(3)])
  ultimately show ?thesis
    by simp
qed

theorem getAllAlertsForAdmin_sorted_witness:
  "map formatIncident (extractData (Fulfilled (Some [incI1])))
     = map Inr [projr (formatIncident incI1)]
   \<and> map (createdTime parseNothing)
         [formatMessage msgGeneral, formatSOS sosS1, projr (formatIncident incI1)]
       = [Some 1000, Some 3000, Some 2000]
   \<and> (\<exists>d. getAllAlertsForAdmin parseNothing (Fulfilled (Some [msgGeneral]))
              (Fulfilled (Some [sosS1])) (Fulfilled (Some [incI1])) = Inr d
          \<and> sorted_wrt (notLater parseNothing) (messages d)
          \<and> sorted_wrt (earlier parseNothing) (messages d))"
proof -
  let ?fi = "[projr (formatIncident incI1)]"
  let ?all = "[formatMessage msgGeneral, formatSOS sosS1, projr (formatIncident incI1)]"
  have inc: "map formatIncident (extractData (Fulfilled (Some [incI1]))) = map Inr ?fi"
    by (simp add: formatIncident_def incI1_def)
  have cat: "?all = map formatMessage (extractData (Fulfilled (Some [msgGeneral])))
      @ map formatSOS (extractData (Fulfilled (Some [sosS1]))) @ ?fi"
    by simp
  have times: "map (createdTime parseNothing) ?all = [Some 1000, Some 3000, Some 2000]"
    by (simp add: formatIncident_def formatMessage_def formatSOS_def incI1_def sosS1_def
        msgGeneral_def emptyObject_def createdTime_def timeClip_def)
  have valid: "\<forall>a\<in>set ?all. createdTime parseNothing a \<noteq> None"
    using times by simp
  have dist: "distinct (map (createdTime parseNothing) ?all)"
    unfolding times by simp
  show ?thesis
    using getAllAlertsForAdmin_sorted [OF inc cat valid] inc times dist by blast
qed

section \<open>Lemmas about the Admin Actions page\<close>

lemmas example_defs = formatIncident_def formatMessage_def formatSOS_def incI1_def sosS1_def
  msgGeneral_def emptyObject_def createdTime_def timeClip_def toLowerCase_def lowerChar_def
  js_or_def

lemma sort_two_examples:
  "arraySort (compareCreated parseNothing) [formatMessage msgGeneral, projr (formatIncident incI1)]
     = [projr (formatIncident incI1), formatMessage msgGeneral]"
  "arraySort (compareCreated parseNothing) [formatMessage msgGeneral, formatSOS sosS1]
     = [formatSOS sosS1, formatMessage msgGeneral]"
  by (simp_all add: example_defs compareCreated_def sortCompare_def)

lemma snapshotA:
  "getAllAlertsForAdmin parseNothing (Fulfilled (Some [msgGeneral])) Rejected (Fulfilled (Some [incI1]))
     = Inr \<lparr>messages = [projr (formatIncident incI1), formatMessage msgGeneral],
            stats = computeStats [projr (formatIncident incI1), formatMessage msgGeneral]\<rparr>"
proof -
  have fi: "map formatIncident (extractData (Fulfilled (Some [incI1])))
      = map Inr [projr (formatIncident incI1)]"
    by (simp add: formatIncident_def incI1_def)
  have cat: "map formatMessage (extractData (Fulfilled (Some [msgGeneral])))
      @ map formatSOS (extractData Rejected) @ [projr (formatIncident incI1)]
      = [formatMessage msgGeneral, projr (formatIncident incI1)]"
    by simp
  show ?thesis
    unfolding getAll_no_throw [OF fi] cat sort_two_examples by (rule refl)
qed

lemma snapshotB:
  "getAllAlertsForAdmin parseNothing (Fulfilled (Some [msgGeneral])) (Fulfilled (Some [sosS1])) Rejected
     = Inr \<lparr>messages = [formatSOS sosS1, formatMessage msgGeneral],
            stats = computeStats [formatSOS sosS1, formatMessage msgGeneral]\<rparr>"
proof -
  have fi: "map formatIncident (extractData Rejected) = map Inr []"
    by simp
  have cat: "map formatMessage (extractData (Fulfilled (Some [msgGeneral])))
      @ map formatSOS (extractData (Fulfilled (Some [sosS1]))) @ []
      = [formatMessage msgGeneral, formatSOS sosS1]"
    by simp
  show ?thesis
    unfolding getAll_no_throw [OF fi] cat sort_two_examples by (rule refl)
qed

lemma stateA_eval:
  "stateA = \<lparr>aa_alerts = [projr (formatIncident incI1), formatMessage msgGeneral],
             aa_isLoading = False,
             aa_stats = \<lparr>total' = 2, unread = 1, sos_count = 0, incident_count = 1\<rparr>,
             aa_calls = []\<rparr>"
proof -
  have "stateA = fetchAlerts
      (Inr \<lparr>messages = [projr (formatIncident incI1), formatMessage msgGeneral],
            stats = computeStats [projr (formatIncident incI1), formatMessage msgGeneral]\<rparr>)
      (fetchAlerts_start initialAdminActions)"
    by (simp add: stateA_def snapshotA)
  also have "\<dots> = \<lparr>aa_alerts = [projr (formatIncident incI1), formatMessage msgGeneral],
             aa_isLoading = False,
             aa_stats = \<lparr>total' = 2, unread = 1, sos_count = 0, incident_count = 1\<rparr>,
             aa_calls = []\<rparr>"
    by (simp add: fetchAlerts_def fetchAlerts_start_def initialAdminActions_def
      computeStats_def countUnread_def countType_def num_or_def example_defs)
  finally show ?thesis .
qed

lemma stateB_eval:
  "stateB = \<lparr>aa_alerts = [formatSOS sosS1, formatMessage msgGeneral],
             aa_isLoading = False,
             aa_stats = \<lparr>total' = 2, unread = 2, sos_count = 1, incident_count = 0\<rparr>,
             aa_calls = []\<rparr>"
proof -
  have "stateB = fetchAlerts
      (Inr \<lparr>messages = [formatSOS sosS1, formatMessage msgGeneral],
            stats = computeStats [formatSOS sosS1, formatMessage msgGeneral]\<rparr>)
      (fetchAlerts_start initialAdminActions)"
    by (simp add: stateB_def snapshotB)
  also have "\<dots> = \<lparr>aa_alerts = [formatSOS sosS1, formatMessage msgGeneral],
             aa_isLoading = False,
             aa_stats = \<lparr>total' = 2, unread = 2, sos_count = 1, incident_count = 0\<rparr>,
             aa_calls = []\<rparr>"
    by (simp add: fetchAlerts_def fetchAlerts_start_def initialAdminActions_def
      computeStats_def countUnread_def countType_def num_or_def example_defs)
  finally show ?thesis .
qed



lemma handleResolve_True:
  "handleResolve True alert s =
     s\<lparr>aa_calls := aa_calls s @ (case resolveCall alert of None \<Rightarrow> [] | Some c \<Rightarrow> [c]),
       aa_alerts := map (\<lambda>a. if id' a = id' alert
                              then a\<lparr>is_read := JBool True, status := resolvedStatus alert\<rparr>
                              else a) (aa_alerts s),
       aa_stats := decrementUnread (aa_stats s)\<rparr>"
  by (simp add: handleResolve_def Let_def)

lemma handleMarkRead_True:
  "handleMarkRead True alertId s =
     s\<lparr>aa_calls := aa_calls s @ [MarkMessageAsRead alertId],
       aa_alerts := map (\<lambda>a. if id' a = alertId then a\<lparr>is_read := JBool True\<rparr> else a)
                      (aa_alerts s),
       aa_stats := decrementUnread (aa_stats s)\<rparr>"
  by (simp add: handleMarkRead_def Let_def)



lemma countUnread_nonneg: "0 \<le> countUnread xs"
  by (simp add: countUnread_def)

lemma override_read:
  assumes "a \<in> set (map (\<lambda>b. if id' b = i then upd b else b) xs)" and "id' a = i"
    and "\<And>b. id' (upd b) = id' b"
  shows "\<exists>b. a = upd b"
proof -
  from assms(1) have "a \<in> (\<lambda>b. if id' b = i then upd b else b) ` set xs"
    by (simp only: set_map)
  then obtain b where b: "a = (if id' b = i then upd b else b)"
    by blast
  show ?thesis
  proof (cases "id' b = i")
    case True
    with b show ?thesis by auto
  next
    case False
    with b have "a = b" by simp
    with False assms(2) show ?thesis by simp
  qed
qed



lemma resolve_reads:
  "\<forall>a\<in>set (aa_alerts (handleResolve True alert s)).
         id' a = id' alert \<longrightarrow> is_read a = JBool True \<and> status a = resolvedStatus alert"
proof (intro ballI impI)
  fix a assume a: "a \<in> set (aa_alerts (handleResolve True alert s))" "id' a = id' alert"
  have "a \<in> set (map (\<lambda>b. if id' b = id' alert
           then b\<lparr>is_read := JBool True, status := resolvedStatus alert\<rparr> else b) (aa_alerts s))"
    using a(1) unfolding handleResolve_True by simp
  then obtain b where "a = b\<lparr>is_read := JBool True, status := resolvedStatus alert\<rparr>"
    using override_read [of a "id' alert"
        "\<lambda>b. b\<lparr>is_read := JBool True, status := resolvedStatus alert\<rparr>" "aa_alerts s"] a(2)
    by auto
  then show "is_read a = JBool True \<and> status a = resolvedStatus alert" by simp
qed

lemma unread_resolve:
  "unread (aa_stats (handleResolve True alert s)) = max (unread (aa_stats s) - 1) 0"
  by (simp add: handleResolve_True decrementUnread_def)

lemma unread_markRead:
  "unread (aa_stats (handleMarkRead True alertId s)) = max (unread (aa_stats s) - 1) 0"
  by (simp add: handleMarkRead_True decrementUnread_def)

section \<open>Statistics after a mutation\<close>




section \<open>Lemmas about fetch cycles and repeated mutations\<close>

lemma refresh_eval:
  assumes "getAllAlertsForAdmin parse mr sr ir = Inr \<lparr>messages = items, stats = computeStats items\<rparr>"
  shows "act parse (Refresh mr sr ir) s =
     s\<lparr>aa_alerts := items,
       aa_stats := \<lparr>total' = int (length items), unread = countUnread items,
                    sos_count = countType ''SOS'' items,
                    incident_count = countType ''INCIDENT'' items\<rparr>,
       aa_isLoading := False\<rparr>"
  by (simp add: assms fetchAlerts_def fetchAlerts_start_def computeStats_def num_or_def Let_def)

lemma override_same:
  assumes "\<forall>a\<in>set xs. id' a = i \<longrightarrow> is_read a = JBool True \<and> status a = st"
  shows "map (\<lambda>a. if id' a = i then a\<lparr>is_read := JBool True, status := st\<rparr> else a) xs = xs"
proof (rule map_idI)
  fix a assume a: "a \<in> set xs"
  show "(if id' a = i then a\<lparr>is_read := JBool True, status := st\<rparr> else a) = a"
  proof (cases "id' a = i")
    case True
    then have h: "is_read a = JBool True" "status a = st" using assms a by auto
    have "a\<lparr>is_read := is_read a, status := status a\<rparr> = a" by simp
    then have "a\<lparr>is_read := JBool True, status := st\<rparr> = a" unfolding h .
    with True show ?thesis by simp
  next
    case False
    then show ?thesis by simp
  qed
qed

lemma alerts_handleResolve:
  "aa_alerts (handleResolve fulfilled alert s) = aa_alerts s
   \<or> aa_alerts (handleResolve fulfilled alert s)
      = map (\<lambda>a. if id' a = id' alert
                 then a\<lparr>is_read := JBool True, status := resolvedStatus alert\<rparr> else a)
          (aa_alerts s)"
  by (simp add: handleResolve_def Let_def)

lemma calls_handleResolve:
  "aa_calls (handleResolve fulfilled alert s)
     = aa_calls s @ (case resolveCall alert of None \<Rightarrow> [] | Some c \<Rightarrow> [c])"
  by (simp add: handleResolve_def Let_def)

lemma resolvedStatus_hidden:
  "status a = resolvedStatus alert \<Longrightarrow> \<not> showResolve a"
  by (simp add: showResolve_def resolvedStatus_def)

lemma stateB1_eval:
  "stateB1 = \<lparr>aa_alerts = [resolvedS1, formatMessage msgGeneral],
             aa_isLoading = False,
             aa_stats = \<lparr>total' = 2, unread = 1, sos_count = 1, incident_count = 0\<rparr>,
             aa_calls = [ResolveSOS (JStr ''s1'')]\<rparr>"
  by (simp add: stateB1_def handleResolve_True stateB_eval resolvedS1_def resolveCall_def
      resolvedStatus_def decrementUnread_def example_defs)

lemma act_nonneg:
  assumes "0 \<le> unread (aa_stats s)"
  shows "0 \<le> unread (aa_stats (act parse a s))"
proof (cases a)
  case (Refresh mr sr ir)
  obtain items where d: "getAllAlertsForAdmin parse mr sr ir
      = Inr \<lparr>messages = items, stats = computeStats items\<rparr>"
    using getAll_shape by blast
  show ?thesis
    unfolding Refresh refresh_eval [OF d] by (simp add: countUnread_nonneg)
next
  case (Resolve alert fulfilled)
  then show ?thesis
    using assms by (simp add: handleResolve_def Let_def decrementUnread_def)
next
  case (MarkRead alertId fulfilled)
  then show ?thesis
    using assms by (simp add: handleMarkRead_def Let_def decrementUnread_def)
qed

lemma run_nonneg:
  "0 \<le> unread (aa_stats s) \<Longrightarrow> 0 \<le> unread (aa_stats (run parse acts s))"
  by (induction acts arbitrary: s) (simp_all add: act_nonneg)

lemma messages_fetchData: "app_messages (fetchData (Inr d) s) = messages d"
  by (simp add: fetchData_def Let_def)

lemma afterLogin:
  "step Login (initialApp False)
     = (initialApp False)\<lparr>app_isLoggedIn := True, app_started := Suc (Suc 0),
                            app_inFlight := [Suc 0, Suc (Suc 0)]\<rparr>"
  by (simp add: initialApp_def startCycle_def)

section \<open>A fetch cycle after a local mutation\<close>

text \<open>
  C3 (as amended).  No component keeps a record of pending mutations.  On the Admin
  Actions page, where mark-read and resolve are done, a completed fetch cycle replaces
  the alerts and the statistics by those of the fetched snapshot, whatever mark-read or
  resolve preceded it: after the cycle an alert is shown as read exactly when the
  fetched data has it read, and \<open>stats.unread\<close> of the page is the number of unread
  alerts of the fetched data, so nothing is counted twice.  In the App component a
  completed cycle replaces \<open>messages\<close>, \<open>stats.total\<close> and \<open>stats.by_type\<close> by those of
  the fetched snapshot.
\<close>

theorem refresh_replaces:
  "\<exists>d. getAllAlertsForAdmin parse mr sr ir = Inr d
     \<and> aa_alerts (act parse (Refresh mr sr ir) s) = messages d
     \<and> aa_stats (act parse (Refresh mr sr ir) s)
         = \<lparr>total' = int (length (messages d)), unread = countUnread (messages d),
            sos_count = countType ''SOS'' (messages d),
            incident_count = countType ''INCIDENT'' (messages d)\<rparr>
     \<and> unreadConsistent (act parse (Refresh mr sr ir) s)
     \<and> aa_alerts (act parse (Refresh mr sr ir) (handleMarkRead fulfilled alertId s)) = messages d
     \<and> aa_alerts (act parse (Refresh mr sr ir) (handleResolve fulfilled alert s)) = messages d
     \<and> aa_stats (act parse (Refresh mr sr ir) (handleMarkRead fulfilled alertId s))
         = aa_stats (act parse (Refresh mr sr ir) s)
     \<and> aa_stats (act parse (Refresh mr sr ir) (handleResolve fulfilled alert s))
         = aa_stats (act parse (Refresh mr sr ir) s)
     \<and> app_messages (fetchData (getAllAlertsForAdmin parse mr sr ir) t) = messages d
     \<and> app_total (app_stats (fetchData (getAllAlertsForAdmin parse mr sr ir) t))
         = int (length (messages d))
     \<and> app_by_type (app_stats (fetchData (getAllAlertsForAdmin parse mr sr ir) t))
         = by_type (stats d)"
proof -
  obtain items where d: "getAllAlertsForAdmin parse mr sr ir
      = Inr \<lparr>messages = items, stats = computeStats items\<rparr>"
    using getAll_shape by blast
  note ev = refresh_eval [OF d]
  show ?thesis
    unfolding ev d
    by (simp add: unreadConsistent_def fetchData_def Let_def computeStats_def num_or_def)
qed

text \<open>
  The claim as stated fails: in \<open>stateA\<close> the message \<open>m1\<close> is unread; after a
  successful mark-read it is read; after a fetch cycle whose data still has it unread it
  is shown as unread again.
\<close>

theorem refresh_replaces_counterexample:
  "map id' (aa_alerts stateA) = [JStr ''i1'', JStr ''m1'']
   \<and> map is_read (aa_alerts stateA) = [JBool True, JBool False]
   \<and> map is_read (aa_alerts (handleMarkRead True (JStr ''m1'') stateA)) = [JBool True, JBool True]
   \<and> map is_read (aa_alerts (act parseNothing
          (Refresh (Fulfilled (Some [msgGeneral])) Rejected (Fulfilled (Some [incI1])))
          (handleMarkRead True (JStr ''m1'') stateA))) = [JBool True, JBool False]"
proof -
  have 1: "map id' (aa_alerts stateA) = [JStr ''i1'', JStr ''m1'']
      \<and> map is_read (aa_alerts stateA) = [JBool True, JBool False]"
    by (simp add: stateA_eval example_defs)
  have 2: "map is_read (aa_alerts (handleMarkRead True (JStr ''m1'') stateA))
      = [JBool True, JBool True]"
    by (simp add: handleMarkRead_True stateA_eval example_defs)
  have 3: "aa_alerts (act parseNothing
          (Refresh (Fulfilled (Some [msgGeneral])) Rejected (Fulfilled (Some [incI1])))
          (handleMarkRead True (JStr ''m1'') stateA))
        = [projr (formatIncident incI1), formatMessage msgGeneral]"
    unfolding refresh_eval [OF snapshotA] by simp
  have 4: "map is_read [projr (formatIncident incI1), formatMessage msgGeneral]
      = [JBool True, JBool False]"
    by (simp add: example_defs)
  show ?thesis using 1 2 4 unfolding 3 by simp
qed

section \<open>Resolving a resolved alert\<close>

text \<open>
  C4 (as amended).  After a successful resolve every alert with the given \<open>id\<close> has the
  status \<open>SAFE\<close> or \<open>RESOLVED\<close>, so that the page no longer renders its Resolve button.
  \<open>handleResolve\<close> itself has no guard: called for an alert all of whose copies are
  already read and carry the resolved status, it leaves the alert sequence unchanged,
  but it sends the backend request again (for an SOS or an incident) and, when the
  request succeeds, decrements \<open>stats.unread\<close> again, down to zero at most.
\<close>

theorem resolve_again:
  "(\<forall>a\<in>set (aa_alerts (handleResolve True alert s)). id' a = id' alert \<longrightarrow> \<not> showResolve a)
   \<and> ((\<forall>a\<in>set (aa_alerts s).
          id' a = id' alert \<longrightarrow> is_read a = JBool True \<and> status a = resolvedStatus alert)
        \<longrightarrow> aa_alerts (handleResolve fulfilled alert s) = aa_alerts s)
   \<and> aa_calls (handleResolve fulfilled alert s)
       = aa_calls s @ (case resolveCall alert of None \<Rightarrow> [] | Some c \<Rightarrow> [c])
   \<and> unread (aa_stats (handleResolve True alert s)) = max (unread (aa_stats s) - 1) 0"
proof -
  have 1: "\<forall>a\<in>set (aa_alerts (handleResolve True alert s)). id' a = id' alert \<longrightarrow> \<not> showResolve a"
    using resolve_reads [of alert s] resolvedStatus_hidden by blast
  have 2: "(\<forall>a\<in>set (aa_alerts s).
          id' a = id' alert \<longrightarrow> is_read a = JBool True \<and> status a = resolvedStatus alert)
        \<longrightarrow> aa_alerts (handleResolve fulfilled alert s) = aa_alerts s"
  proof
    assume "\<forall>a\<in>set (aa_alerts s).
          id' a = id' alert \<longrightarrow> is_read a = JBool True \<and> status a = resolvedStatus alert"
    then have same: "map (\<lambda>a. if id' a = id' alert
                 then a\<lparr>is_read := JBool True, status := resolvedStatus alert\<rparr> else a)
          (aa_alerts s) = aa_alerts s"
      by (rule override_same)
    from alerts_handleResolve [of fulfilled alert s]
    show "aa_alerts (handleResolve fulfilled alert s) = aa_alerts s"
    proof
      assume "aa_alerts (handleResolve fulfilled alert s) = aa_alerts s"
      then show ?thesis .
    next
      assume "aa_alerts (handleResolve fulfilled alert s)
        = map (\<lambda>a. if id' a = id' alert
                 then a\<lparr>is_read := JBool True, status := resolvedStatus alert\<rparr> else a)
          (aa_alerts s)"
      then show ?thesis by (simp only: same)
    qed
  qed
  show ?thesis
    by (intro conjI) (fact 1, fact 2, fact calls_handleResolve, fact unread_resolve)
qed

theorem resolve_again_witness:
  "aa_alerts stateB1 = [resolvedS1, formatMessage msgGeneral]
   \<and> \<not> showResolve resolvedS1
   \<and> aa_alerts (handleResolve True resolvedS1 stateB1) = aa_alerts stateB1"
proof -
  have 1: "aa_alerts stateB1 = [resolvedS1, formatMessage msgGeneral]"
    by (simp add: stateB1_eval)
  have 2: "\<not> showResolve resolvedS1"
    by (simp add: showResolve_def resolvedS1_def)
  have 3: "\<forall>a\<in>set (aa_alerts stateB1).
      id' a = id' resolvedS1 \<longrightarrow> is_read a = JBool True \<and> status a = resolvedStatus resolvedS1"
    unfolding 1 by (simp add: resolvedS1_def resolvedStatus_def example_defs)
  show ?thesis
    using 1 2 3 resolve_again [of resolvedS1 stateB1 True] by blast
qed

text \<open>
  The claim as stated fails: resolving the resolved SOS alert of \<open>stateB1\<close> sends
  \<open>resolveSOS("s1")\<close> a second time and takes \<open>stats.unread\<close> from 1 to 0.
\<close>

theorem resolve_again_counterexample:
  "aa_calls stateB1 = [ResolveSOS (JStr ''s1'')]
   \<and> unread (aa_stats stateB1) = 1
   \<and> aa_calls (handleResolve True resolvedS1 stateB1)
       = [ResolveSOS (JStr ''s1''), ResolveSOS (JStr ''s1'')]
   \<and> unread (aa_stats (handleResolve True resolvedS1 stateB1)) = 0"
  by (simp add: handleResolve_True stateB1_eval resolveCall_def decrementUnread_def
      resolvedS1_def example_defs)

section \<open>The unread counter is never negative\<close>

text \<open>
  C10.  Whatever fetch cycles and mutations the page goes through from its initial
  state, with whatever outcomes, \<open>stats.unread\<close> is never negative: a successful
  mutation sets it to \<open>max(unread - 1, 0)\<close>, which is not negative even when the same
  alert, or an alert that is already read, is mutated again.
\<close>

theorem unread_never_negative:
  "0 \<le> unread (aa_stats (run parse acts initialAdminActions))
   \<and> unread (aa_stats (handleResolve True alert s)) = max (unread (aa_stats s) - 1) 0
   \<and> unread (aa_stats (handleMarkRead True alertId s)) = max (unread (aa_stats s) - 1) 0
   \<and> 0 \<le> unread (aa_stats (handleResolve True alert s))
   \<and> 0 \<le> unread (aa_stats (handleMarkRead True alertId s))"
proof -
  have "0 \<le> unread (aa_stats (run parse acts initialAdminActions))"
    by (rule run_nonneg) (simp add: initialAdminActions_def)
  then show ?thesis
    by (simp add: unread_resolve unread_markRead)
qed

section \<open>Fields of the normalised alerts\<close>

lemma lowered_cases:
  "optToLowerCase v = Inr lowered \<Longrightarrow> lowered = JUndefined \<or> (\<exists>s. lowered = JStr s)"
  by (cases v) auto

lemma severity_incident:
  assumes "optToLowerCase v = Inr lowered"
  shows "\<exists>t. js_or lowered (JStr ''medium'') = JStr t \<and> t \<noteq> []"
proof -
  from lowered_cases [OF assms] show ?thesis
  proof
    assume "lowered = JUndefined"
    then have "js_or lowered (JStr ''medium'') = JStr ''medium''" by (simp add: js_or_def)
    then show ?thesis by simp
  next
    assume "\<exists>s. lowered = JStr s"
    then obtain s where s: "lowered = JStr s" by blast
    show ?thesis
    proof (cases "s = []")
      case True
      with s have "js_or lowered (JStr ''medium'') = JStr ''medium''" by (simp add: js_or_def)
      then show ?thesis by simp
    next
      case False
      with s have "js_or lowered (JStr ''medium'') = JStr s" by (simp add: js_or_def)
      with False show ?thesis by simp
    qed
  qed
qed

lemma formatIncident_Inr:
  assumes "optToLowerCase (inc_risk_level inc) = Inr lowered"
  shows "\<exists>a. formatIncident inc = Inr a
     \<and> id' a = inc_id inc \<and> backendId a = inc_id inc
     \<and> sourceType a = JStr ''INCIDENT'' \<and> message_type a = JStr ''INCIDENT''
     \<and> title a = JStr (''Incident: '' @ toString (inc_type inc))
     \<and> severity a = js_or lowered (JStr ''medium'')
     \<and> is_read a = JBool (inc_status inc = JStr ''RESOLVED'' \<or> inc_status inc = JStr ''VERIFIED'')
     \<and> content a = inc_description inc \<and> status a = inc_status inc
     \<and> created_at a = inc_created_at inc"
  by (simp add: formatIncident_def assms)

text \<open>
  C8 (as amended).  Every adapter copies \<open>id\<close> from the upstream identifier and sets
  \<open>sourceType\<close> and a boolean \<open>is_read\<close>.  The SOS adapter and the incident adapter (for
  a risk level that is a string or absent) also set \<open>_backendId\<close> to the upstream
  identifier, \<open>message_type\<close>, a string \<open>title\<close> and a non-empty string \<open>severity\<close>;
  \<open>status\<close> and \<open>created_at\<close>, and for incidents \<open>content\<close>, are copied from the
  upstream record, so that the alert passes the full-field validation exactly when the
  upstream record has them and its identifier.  The message adapter adds nothing else:
  \<open>message_type\<close>, \<open>title\<close>, \<open>content\<close>, \<open>severity\<close>, \<open>status\<close>, \<open>created_at\<close> and
  \<open>_backendId\<close> are those of the message record, and the alert passes the validation
  exactly when the message record has all of them.
\<close>

theorem adapters_fields:
  "(id' (formatSOS sos) = sos_id sos \<and> backendId (formatSOS sos) = sos_id sos
   \<and> sourceType (formatSOS sos) = JStr ''SOS'' \<and> message_type (formatSOS sos) = JStr ''SOS''
   \<and> (\<exists>t. title (formatSOS sos) = JStr t) \<and> (\<exists>c. content (formatSOS sos) = JStr c)
   \<and> severity (formatSOS sos) = JStr ''critical'' \<and> (\<exists>b. is_read (formatSOS sos) = JBool b)
   \<and> status (formatSOS sos) = sos_status sos \<and> created_at (formatSOS sos) = sos_created_at sos
   \<and> (validAlert (formatSOS sos) \<longleftrightarrow>
        sos_id sos \<noteq> JUndefined \<and> sos_status sos \<noteq> JUndefined \<and> sos_created_at sos \<noteq> JUndefined))
   \<and> (riskLevelText inc \<longrightarrow>
        (\<exists>a. formatIncident inc = Inr a
           \<and> id' a = inc_id inc \<and> backendId a = inc_id inc
           \<and> sourceType a = JStr ''INCIDENT'' \<and> message_type a = JStr ''INCIDENT''
           \<and> (\<exists>t. title a = JStr t) \<and> (\<exists>v. severity a = JStr v \<and> v \<noteq> [])
           \<and> (\<exists>b. is_read a = JBool b)
           \<and> content a = inc_description inc \<and> status a = inc_status inc
           \<and> created_at a = inc_created_at inc
           \<and> (validAlert a \<longleftrightarrow>
                inc_id inc \<noteq> JUndefined \<and> inc_description inc \<noteq> JUndefined
                \<and> inc_status inc \<noteq> JUndefined \<and> inc_created_at inc \<noteq> JUndefined)))
   \<and> (id' (formatMessage msg) = id' msg \<and> sourceType (formatMessage msg) = JStr ''MESSAGE''
   \<and> is_read (formatMessage msg) = JBool (truthy (is_read msg))
   \<and> message_type (formatMessage msg) = message_type msg
   \<and> title (formatMessage msg) = title msg \<and> content (formatMessage msg) = content msg
   \<and> severity (formatMessage msg) = severity msg \<and> status (formatMessage msg) = status msg
   \<and> created_at (formatMessage msg) = created_at msg
   \<and> backendId (formatMessage msg) = backendId msg
   \<and> (validAlert (formatMessage msg) \<longleftrightarrow>
        id' msg \<noteq> JUndefined \<and> message_type msg \<noteq> JUndefined \<and> title msg \<noteq> JUndefined
        \<and> content msg \<noteq> JUndefined \<and> severity msg \<noteq> JUndefined \<and> status msg \<noteq> JUndefined
        \<and> created_at msg \<noteq> JUndefined \<and> backendId msg \<noteq> JUndefined))"
proof -
  have sos: "id' (formatSOS sos) = sos_id sos \<and> backendId (formatSOS sos) = sos_id sos
   \<and> sourceType (formatSOS sos) = JStr ''SOS'' \<and> message_type (formatSOS sos) = JStr ''SOS''
   \<and> (\<exists>t. title (formatSOS sos) = JStr t) \<and> (\<exists>c. content (formatSOS sos) = JStr c)
   \<and> severity (formatSOS sos) = JStr ''critical'' \<and> (\<exists>b. is_read (formatSOS sos) = JBool b)
   \<and> status (formatSOS sos) = sos_status sos \<and> created_at (formatSOS sos) = sos_created_at sos
   \<and> (validAlert (formatSOS sos) \<longleftrightarrow>
        sos_id sos \<noteq> JUndefined \<and> sos_status sos \<noteq> JUndefined \<and> sos_created_at sos \<noteq> JUndefined)"
    by (simp add: formatSOS_def validAlert_def; blast)
  have inc: "\<exists>a. formatIncident inc = Inr a
           \<and> id' a = inc_id inc \<and> backendId a = inc_id inc
           \<and> sourceType a = JStr ''INCIDENT'' \<and> message_type a = JStr ''INCIDENT''
           \<and> (\<exists>t. title a = JStr t) \<and> (\<exists>v. severity a = JStr v \<and> v \<noteq> [])
           \<and> (\<exists>b. is_read a = JBool b)
           \<and> content a = inc_description inc \<and> status a = inc_status inc
           \<and> created_at a = inc_created_at inc
           \<and> (validAlert a \<longleftrightarrow>
                inc_id inc \<noteq> JUndefined \<and> inc_description inc \<noteq> JUndefined
                \<and> inc_status inc \<noteq> JUndefined \<and> inc_created_at inc \<noteq> JUndefined)"
    if ok: "riskLevelText inc"
  proof -
    obtain lowered where low: "optToLowerCase (inc_risk_level inc) = Inr lowered"
      using ok by (cases "inc_risk_level inc") (auto simp: riskLevelText_def)
    obtain v where v: "js_or lowered (JStr ''medium'') = JStr v" "v \<noteq> []"
      using severity_incident [OF low] by blast
    obtain a where a: "formatIncident inc = Inr a"
      "id' a = inc_id inc" "backendId a = inc_id inc"
      "sourceType a = JStr ''INCIDENT''" "message_type a = JStr ''INCIDENT''"
      "title a = JStr (''Incident: '' @ toString (inc_type inc))"
      "severity a = js_or lowered (JStr ''medium'')"
      "is_read a = JBool (inc_status inc = JStr ''RESOLVED'' \<or> inc_status inc = JStr ''VERIFIED'')"
      "content a = inc_description inc" "status a = inc_status inc"
      "created_at a = inc_created_at inc"
      using formatIncident_Inr [OF low] by blast
    have valid: "validAlert a \<longleftrightarrow>
                inc_id inc \<noteq> JUndefined \<and> inc_description inc \<noteq> JUndefined
                \<and> inc_status inc \<noteq> JUndefined \<and> inc_created_at inc \<noteq> JUndefined"
      unfolding validAlert_def a v by (simp; blast)
    have tit: "\<exists>t. title a = JStr t" by (simp add: a)
    have sev: "\<exists>v. severity a = JStr v \<and> v \<noteq> []" by (simp add: a v)
    have rd: "\<exists>b. is_read a = JBool b" by (simp add: a)
    show ?thesis
      by (rule exI [of _ a]) (intro conjI; fact a tit sev rd valid)
  qed
  have msg: "id' (formatMessage msg) = id' msg \<and> sourceType (formatMessage msg) = JStr ''MESSAGE''
   \<and> is_read (formatMessage msg) = JBool (truthy (is_read msg))
   \<and> message_type (formatMessage msg) = message_type msg
   \<and> title (formatMessage msg) = title msg \<and> content (formatMessage msg) = content msg
   \<and> severity (formatMessage msg) = severity msg \<and> status (formatMessage msg) = status msg
   \<and> created_at (formatMessage msg) = created_at msg
   \<and> backendId (formatMessage msg) = backendId msg
   \<and> (validAlert (formatMessage msg) \<longleftrightarrow>
        id' msg \<noteq> JUndefined \<and> message_type msg \<noteq> JUndefined \<and> title msg \<noteq> JUndefined
        \<and> content msg \<noteq> JUndefined \<and> severity msg \<noteq> JUndefined \<and> status msg \<noteq> JUndefined
        \<and> created_at msg \<noteq> JUndefined \<and> backendId msg \<noteq> JUndefined)"
    by (simp add: formatMessage_def validAlert_def; blast)
  from inc have inc': "riskLevelText inc \<longrightarrow> (\<exists>a. formatIncident inc = Inr a
           \<and> id' a = inc_id inc \<and> backendId a = inc_id inc
           \<and> sourceType a = JStr ''INCIDENT'' \<and> message_type a = JStr ''INCIDENT''
           \<and> (\<exists>t. title a = JStr t) \<and> (\<exists>v. severity a = JStr v \<and> v \<noteq> [])
           \<and> (\<exists>b. is_read a = JBool b)
           \<and> content a = inc_description inc \<and> status a = inc_status inc
           \<and> created_at a = inc_created_at inc
           \<and> (validAlert a \<longleftrightarrow>
                inc_id inc \<noteq> JUndefined \<and> inc_description inc \<noteq> JUndefined
                \<and> inc_status inc \<noteq> JUndefined \<and> inc_created_at inc \<noteq> JUndefined))"
    by (rule impI)
  show ?thesis
    by (rule conjI [OF sos conjI [OF inc' msg]])
qed

theorem adapters_fields_witness:
  "riskLevelText incI1 \<and> (\<exists>a. formatIncident incI1 = Inr a \<and> validAlert a)"
proof -
  have ok: "riskLevelText incI1"
    by (simp add: riskLevelText_def incI1_def)
  have fields: "inc_id incI1 \<noteq> JUndefined \<and> inc_description incI1 \<noteq> JUndefined
      \<and> inc_status incI1 \<noteq> JUndefined \<and> inc_created_at incI1 \<noteq> JUndefined"
    by (simp add: incI1_def)
  show ?thesis
    using ok fields adapters_fields [of undefined incI1 undefined] by blast
qed

text \<open>
  The claim as stated fails for the message adapter: the message \<open>msgGeneral\<close> has all
  the documented properties, and the alert made from it has no \<open>_backendId\<close>, no
  \<open>severity\<close> and no \<open>status\<close>; a message without a title gives an alert without a
  title.
\<close>

theorem adapters_fields_counterexample:
  "\<not> validAlert (formatMessage msgGeneral)
   \<and> backendId (formatMessage msgGeneral) = JUndefined
   \<and> severity (formatMessage msgGeneral) = JUndefined
   \<and> status (formatMessage msgGeneral) = JUndefined
   \<and> title (formatMessage (msgGeneral\<lparr>title := JUndefined\<rparr>)) = JUndefined"
  by (simp add: validAlert_def formatMessage_def msgGeneral_def emptyObject_def)

section \<open>Overlapping fetch cycles\<close>

text \<open>
  C6 (as amended).  The App component starts a fetch cycle at every tick of its
  interval, and two at login, whether or not other cycles are in flight, and it applies
  the data of every cycle when that cycle completes: the state shows the data of the
  cycle that completed last, whichever cycle was started last.  Only the Admin Actions
  page keeps its Refresh button disabled from the start of a cycle to its completion.
\<close>

theorem completion_order:
  "(n \<in> set (app_inFlight s) \<longrightarrow>
       app_applied (step (Complete n res) s) = Some n
     \<and> n \<notin> set (app_inFlight (step (Complete n res) s))
     \<and> app_messages (step (Complete n (Inr d)) s) = messages d)
   \<and> (app_isLoggedIn s \<longrightarrow> app_inFlight (step Tick s) = app_inFlight s @ [Suc (app_started s)])
   \<and> (\<not> app_isLoggedIn s \<longrightarrow>
        app_inFlight (step Login s)
          = app_inFlight s @ [Suc (app_started s), Suc (Suc (app_started s))])
   \<and> \<not> refreshEnabled (fetchAlerts_start t) \<and> refreshEnabled (fetchAlerts r t)"
proof -
  have 1: "n \<in> set (app_inFlight s) \<longrightarrow>
       app_applied (step (Complete n res) s) = Some n
     \<and> n \<notin> set (app_inFlight (step (Complete n res) s))
     \<and> app_messages (step (Complete n (Inr d)) s) = messages d"
    by (simp add: messages_fetchData)
  have 2: "app_isLoggedIn s \<longrightarrow> app_inFlight (step Tick s) = app_inFlight s @ [Suc (app_started s)]"
    by (simp add: startCycle_def)
  have 3: "\<not> app_isLoggedIn s \<longrightarrow>
        app_inFlight (step Login s)
          = app_inFlight s @ [Suc (app_started s), Suc (Suc (app_started s))]"
    by (simp add: startCycle_def)
  have 4: "\<not> refreshEnabled (fetchAlerts_start t) \<and> refreshEnabled (fetchAlerts r t)"
    by (simp add: refreshEnabled_def fetchAlerts_start_def fetchAlerts_def Let_def split: sum.splits)
  show ?thesis
    by (rule conjI [OF 1 conjI [OF 2 conjI [OF 3 4]]])
qed

theorem completion_order_witness:
  "\<not> app_isLoggedIn (initialApp False)
   \<and> app_inFlight (step Login (initialApp False)) = [Suc 0, Suc (Suc 0)]
   \<and> app_isLoggedIn (step Login (initialApp False))
   \<and> app_inFlight (step Tick (step Login (initialApp False))) = [Suc 0, Suc (Suc 0), Suc (Suc (Suc 0))]
   \<and> app_applied (step (Complete (Suc (Suc 0)) (Inr snapshotM)) (step Login (initialApp False)))
       = Some (Suc (Suc 0))
   \<and> app_messages (step (Complete (Suc (Suc 0)) (Inr snapshotM)) (step Login (initialApp False)))
       = messages snapshotM"
proof -
  have a: "\<not> app_isLoggedIn (initialApp False)" "app_inFlight (initialApp False) = []"
    "app_started (initialApp False) = 0"
    by (simp_all add: initialApp_def)
  have b: "app_isLoggedIn (step Login (initialApp False))"
    "Suc (Suc 0) \<in> set (app_inFlight (step Login (initialApp False)))"
    "app_inFlight (step Login (initialApp False)) = [Suc 0, Suc (Suc 0)]"
    "app_started (step Login (initialApp False)) = Suc (Suc 0)"
    unfolding afterLogin by (simp_all add: initialApp_def)
  show ?thesis
    using a b
      completion_order [of "Suc (Suc 0)" "initialApp False" "Inr snapshotM" snapshotM]
      completion_order [of "Suc (Suc 0)" "step Login (initialApp False)" "Inr snapshotM" snapshotM]
    by (simp del: step.simps)
qed

text \<open>
  The claim as stated fails: after a login the cycles 1 and 2 are both in flight; when
  cycle 2 completes first, with the message \<open>msgGeneral\<close>, and cycle 1 completes after
  it, with no data, the state shows the data of cycle 1.
\<close>

theorem completion_order_counterexample:
  "app_inFlight (exec [Login] (initialApp False)) = [Suc 0, Suc (Suc 0)]
   \<and> app_messages (exec [Login, Complete (Suc (Suc 0)) (Inr snapshotM)] (initialApp False))
       = [formatMessage msgGeneral]
   \<and> app_applied (exec [Login, Complete (Suc (Suc 0)) (Inr snapshotM),
                         Complete (Suc 0) (Inr emptySnapshot)] (initialApp False)) = Some (Suc 0)
   \<and> app_messages (exec [Login, Complete (Suc (Suc 0)) (Inr snapshotM),
                          Complete (Suc 0) (Inr emptySnapshot)] (initialApp False)) = []"
  unfolding exec.simps afterLogin
  by (simp add: initialApp_def snapshotM_def emptySnapshot_def fetchData_def Let_def)

end
